theory Spec2Isabelle
  imports Complex_Main
begin

section \<open>JavaScript strings and numbers\<close>

text \<open>
  Strings are lists of code units (\<open>string\<close>), \<open>length\<close> is the JavaScript \<open>length\<close>.
  Times, scores and confidences are JavaScript numbers; they are modelled as rationals, so
  arithmetic is exact (rounding of doubles is outside the model). Counters, indices and
  whole seconds are naturals.
\<close>

definition isDigit :: "char \<Rightarrow> bool" where
  "isDigit c = (48 \<le> (of_char c :: nat) \<and> (of_char c :: nat) \<le> 57)"

definition digit_char :: "nat \<Rightarrow> char" where
  "digit_char d = char_of (48 + d)"

definition digit_val :: "char \<Rightarrow> nat" where
  "digit_val c = of_char c - 48"

text \<open>\<open>n.toString()\<close> for a non-negative integer: its decimal digits.\<close>

function toString :: "nat \<Rightarrow> string" where
  "toString n = (if n < 10 then [digit_char n]
                 else toString (n div 10) @ [digit_char (n mod 10)])"
  by pat_completeness auto
termination
  by (relation "measure (\<lambda>n. n)") auto

declare toString.simps [simp del]

text \<open>\<open>s.padStart(2, '0')\<close>.\<close>

definition padStart2 :: "string \<Rightarrow> string" where
  "padStart2 s = replicate (2 - length s) (CHR ''0'') @ s"

text \<open>
  \<open>Number(s)\<close> on a string of decimal digits (the empty string gives 0). Every other
  string gives \<open>None\<close>: it stands for \<open>NaN\<close> and for the signed, fractional and
  exponent forms, none of which the time tokens of this program contain.
\<close>

definition Number_js :: "string \<Rightarrow> nat option" where
  "Number_js s = (if list_all isDigit s
                  then Some (foldl (\<lambda>a c. 10 * a + digit_val c) 0 s) else None)"

text \<open>\<open>s.split(d)\<close> for a one-character separator.\<close>

fun split_on :: "char \<Rightarrow> string \<Rightarrow> string list" where
  "split_on d [] = [[]]"
| "split_on d (c # cs) =
     (if c = d then [] # split_on d cs
      else (case split_on d cs of
              [] \<Rightarrow> [[c]]
            | w # ws \<Rightarrow> (c # w) # ws))"

text \<open>\<open>x % m\<close> on a non-negative \<open>x\<close> and a positive \<open>m\<close> (the only use made of it).\<close>

definition js_mod :: "rat \<Rightarrow> rat \<Rightarrow> rat" where
  "js_mod x m = x - m * of_int \<lfloor>x / m\<rfloor>"

section \<open>Time tokens (chat route)\<close>

text \<open>
  \<open>formatTime(seconds)\<close>: \<open>!seconds\<close> holds for 0, and negative values share its
  branch; hours, minutes and seconds are floored.
\<close>

definition formatTime :: "rat \<Rightarrow> string" where
  "formatTime seconds =
     (if seconds = 0 \<or> seconds < 0 then ''00:00''
      else
        let hours = nat \<lfloor>seconds / 3600\<rfloor>;
            minutes = nat \<lfloor>js_mod seconds 3600 / 60\<rfloor>;
            secs = nat \<lfloor>js_mod seconds 60\<rfloor>
        in if hours > 0
           then padStart2 (toString hours) @ '':'' @ padStart2 (toString minutes) @ '':''
                  @ padStart2 (toString secs)
           else padStart2 (toString minutes) @ '':'' @ padStart2 (toString secs))"

text \<open>
  \<open>parseTimeString(timeString)\<close>: split on the colon, \<open>Number\<close> of every part, two
  parts are minutes and seconds, three are hours, minutes and seconds, anything else 0.
\<close>

definition parseTimeString :: "string \<Rightarrow> nat option" where
  "parseTimeString timeString =
     (let parts = map Number_js (split_on (CHR '':'') timeString)
      in if length parts = 2 then
           (case (parts ! 0, parts ! 1) of
              (Some a, Some b) \<Rightarrow> Some (a * 60 + b)
            | _ \<Rightarrow> None)
         else if length parts = 3 then
           (case (parts ! 0, parts ! 1, parts ! 2) of
              (Some a, Some b, Some c) \<Rightarrow> Some (a * 3600 + b * 60 + c)
            | _ \<Rightarrow> None)
         else Some 0)"

section \<open>More string operations\<close>

text \<open>White space as \<open>trim\<close> and \<open>\s\<close> see it, among the code units below 256.\<close>

definition isSpace :: "char \<Rightarrow> bool" where
  "isSpace c = ((of_char c :: nat) \<in> {9, 10, 11, 12, 13, 32, 160})"

definition trim :: "string \<Rightarrow> string" where
  "trim s = rev (dropWhile isSpace (rev (dropWhile isSpace s)))"

text \<open>
  \<open>hay.indexOf(needle)\<close>: the least position where \<open>needle\<close> starts, \<open>None\<close> for -1.
\<close>

fun indexOf_from :: "string \<Rightarrow> string \<Rightarrow> nat \<Rightarrow> nat option" where
  "indexOf_from [] needle i = (if needle = [] then Some i else None)"
| "indexOf_from (h # hs) needle i =
     (if take (length needle) (h # hs) = needle then Some i
      else indexOf_from hs needle (Suc i))"

definition indexOf :: "string \<Rightarrow> string \<Rightarrow> nat option" where
  "indexOf hay needle = indexOf_from hay needle 0"

text \<open>\<open>s.split(/\s+/)\<close>: every maximal run of white space separates two pieces.\<close>

function split_ws :: "string \<Rightarrow> string list" where
  "split_ws [] = [[]]"
| "split_ws (c # cs) =
     (if isSpace c then [] # split_ws (dropWhile isSpace cs)
      else (case split_ws cs of
              [] \<Rightarrow> [[c]]
            | w # ws \<Rightarrow> (c # w) # ws))"
  by pat_completeness auto
termination
  by (relation "measure length") (auto simp: le_imp_less_Suc length_dropWhile_le)

text \<open>\<open>words.join(' ')\<close>.\<close>

fun join_space :: "string list \<Rightarrow> string" where
  "join_space [] = []"
| "join_space [w] = w"
| "join_space (w # ws) = w @ '' '' @ join_space ws"

section \<open>Chunker (textChunker.js)\<close>

record segment =
  seg_start :: rat
  seg_end :: rat
  seg_text :: string
  seg_confidence :: rat

record timestamps =
  ts_start :: rat
  ts_end :: rat
  ts_confidence :: rat

definition no_timestamps :: timestamps where
  "no_timestamps = \<lparr>ts_start = 0, ts_end = 0, ts_confidence = 0\<rparr>"

text \<open>\<open>value || 0\<close> on a variable that is \<open>null\<close> or a number.\<close>

definition or_zero :: "rat option \<Rightarrow> rat" where
  "or_zero v = (case v of None \<Rightarrow> 0 | Some t \<Rightarrow> t)"

text \<open>
  \<open>findApproximateTimestamps\<close>: the loop over the segments, \<open>currentPos\<close> being the number
  of characters of the segments passed so far.
\<close>

fun approximate_loop :: "segment list \<Rightarrow> nat \<Rightarrow> nat \<Rightarrow> timestamps" where
  "approximate_loop [] approximateStart currentPos = no_timestamps"
| "approximate_loop (seg # segs) approximateStart currentPos =
     (let segmentEnd = currentPos + length (seg_text seg)
      in if approximateStart \<ge> currentPos \<and> approximateStart < segmentEnd
         then \<lparr>ts_start = seg_start seg, ts_end = seg_end seg,
               ts_confidence = seg_confidence seg * (7 / 10)\<rparr>
         else approximate_loop segs approximateStart segmentEnd)"

definition findApproximateTimestamps :: "string \<Rightarrow> string \<Rightarrow> segment list \<Rightarrow> timestamps" where
  "findApproximateTimestamps chunk fullText segments =
     (let chunkWords = join_space (take 5 (split_ws (trim chunk)))
      in case indexOf fullText chunkWords of
           None \<Rightarrow> no_timestamps
         | Some approximateStart \<Rightarrow> approximate_loop segments approximateStart 0)"

text \<open>
  \<open>mapChunkToTimestamps\<close>: the loop over the segments carries the local variables
  \<open>startTime\<close>, \<open>endTime\<close>, \<open>totalConfidence\<close>, \<open>segmentCount\<close> and \<open>currentPos\<close>.
\<close>

fun overlap_loop ::
  "segment list \<Rightarrow> nat \<Rightarrow> nat \<Rightarrow> rat option \<Rightarrow> rat option \<Rightarrow> rat \<Rightarrow> nat \<Rightarrow> nat
     \<Rightarrow> rat option \<times> rat option \<times> rat \<times> nat" where
  "overlap_loop [] chunkStart chunkEnd startTime endTime totalConfidence segmentCount currentPos =
     (startTime, endTime, totalConfidence, segmentCount)"
| "overlap_loop (seg # segs) chunkStart chunkEnd startTime endTime totalConfidence segmentCount
       currentPos =
     (let segmentStart = currentPos;
          segmentEnd = currentPos + length (seg_text seg)
      in if segmentEnd > chunkStart \<and> segmentStart < chunkEnd
         then overlap_loop segs chunkStart chunkEnd
                (if startTime = None then Some (seg_start seg) else startTime)
                (Some (seg_end seg))
                (totalConfidence + seg_confidence seg)
                (segmentCount + 1)
                segmentEnd
         else overlap_loop segs chunkStart chunkEnd startTime endTime totalConfidence
                segmentCount segmentEnd)"

definition mapChunkToTimestamps :: "string \<Rightarrow> string \<Rightarrow> segment list \<Rightarrow> timestamps" where
  "mapChunkToTimestamps chunk fullText segments =
     (if segments = [] then no_timestamps
      else case indexOf fullText (trim chunk) of
             None \<Rightarrow> findApproximateTimestamps chunk fullText segments
           | Some chunkStart \<Rightarrow>
               (let chunkEnd = chunkStart + length chunk
                in case overlap_loop segments chunkStart chunkEnd None None 0 0 0 of
                     (startTime, endTime, totalConfidence, segmentCount) \<Rightarrow>
                       \<lparr>ts_start = or_zero startTime,
                        ts_end = or_zero endTime,
                        ts_confidence = (if segmentCount > 0
                                         then totalConfidence / of_nat segmentCount else 0)\<rparr>))"

text \<open>\<open>countWords\<close>: the empty string is falsy and counts 0 words.\<close>

definition countWords :: "string \<Rightarrow> nat" where
  "countWords text = (if text = [] then 0
                      else length (filter (\<lambda>word. length word > 0) (split_ws (trim text))))"

record chunk =
  chunk_index :: nat
  chunk_text :: string
  chunk_length :: nat
  chunk_wordCount :: nat
  chunk_startTime :: rat
  chunk_endTime :: rat
  chunk_confidence :: rat

text \<open>
  \<open>chunkText\<close>. The splitter is langchain's \<open>RecursiveCharacterTextSplitter\<close>, a library
  outside the repository: its result \<open>textChunks\<close> is a parameter here. Every piece is
  mapped, with its index, to a chunk with the times of \<open>mapChunkToTimestamps\<close>.
\<close>

definition chunkWithMetadata :: "string \<Rightarrow> segment list \<Rightarrow> nat \<times> string \<Rightarrow> chunk" where
  "chunkWithMetadata fullText segments p =
     (case p of (index, piece) \<Rightarrow>
        (let timestamps = mapChunkToTimestamps piece fullText segments
         in \<lparr>chunk_index = index,
             chunk_text = trim piece,
             chunk_length = length piece,
             chunk_wordCount = countWords piece,
             chunk_startTime = ts_start timestamps,
             chunk_endTime = ts_end timestamps,
             chunk_confidence = ts_confidence timestamps\<rparr>))"

definition chunkText :: "string list \<Rightarrow> string \<Rightarrow> segment list \<Rightarrow> chunk list" where
  "chunkText textChunks fullText segments =
     map (chunkWithMetadata fullText segments) (enumerate 0 textChunks)"

subsection \<open>The reconciliation as the specification words it\<close>

text \<open>
  The segments with the character offset each one starts at, the segments overlapping a
  range of characters, the segment containing a position, and the average of a list.
\<close>

fun with_offsets :: "segment list \<Rightarrow> nat \<Rightarrow> (nat \<times> segment) list" where
  "with_offsets [] pos = []"
| "with_offsets (seg # segs) pos = (pos, seg) # with_offsets segs (pos + length (seg_text seg))"

definition overlaps :: "nat \<Rightarrow> nat \<Rightarrow> nat \<times> segment \<Rightarrow> bool" where
  "overlaps chunkStart chunkEnd p =
     (fst p + length (seg_text (snd p)) > chunkStart \<and> fst p < chunkEnd)"

definition overlapping :: "segment list \<Rightarrow> nat \<Rightarrow> nat \<Rightarrow> nat \<Rightarrow> segment list" where
  "overlapping segs pos chunkStart chunkEnd =
     map snd (filter (overlaps chunkStart chunkEnd) (with_offsets segs pos))"

definition contains_pos :: "nat \<Rightarrow> nat \<times> segment \<Rightarrow> bool" where
  "contains_pos q p = (fst p \<le> q \<and> q < fst p + length (seg_text (snd p)))"

definition containing :: "segment list \<Rightarrow> nat \<Rightarrow> nat \<Rightarrow> segment option" where
  "containing segs pos q = map_option snd (find (contains_pos q) (with_offsets segs pos))"

definition average :: "rat list \<Rightarrow> rat" where
  "average xs = sum_list xs / of_nat (length xs)"

definition spec_reconcile :: "string \<Rightarrow> string \<Rightarrow> segment list \<Rightarrow> timestamps" where
  "spec_reconcile chunk fullText segs =
     (case indexOf fullText (trim chunk) of
        Some chunkStart \<Rightarrow>
          (case overlapping segs 0 chunkStart (chunkStart + length chunk) of
             [] \<Rightarrow> no_timestamps
           | s # ss \<Rightarrow> \<lparr>ts_start = seg_start s,
                        ts_end = seg_end (last (s # ss)),
                        ts_confidence = average (map seg_confidence (s # ss))\<rparr>)
      | None \<Rightarrow>
          (case indexOf fullText (join_space (take 5 (split_ws (trim chunk)))) of
             Some q \<Rightarrow>
               (case containing segs 0 q of
                  Some s \<Rightarrow> \<lparr>ts_start = seg_start s, ts_end = seg_end s,
                             ts_confidence = seg_confidence s * (7 / 10)\<rparr>
                | None \<Rightarrow> no_timestamps)
           | None \<Rightarrow> no_timestamps))"

section \<open>Citation extraction (chat route)\<close>

record context_chunk =
  ctx_index :: nat
  ctx_text :: string
  ctx_startTime :: rat
  ctx_endTime :: rat
  ctx_confidence :: rat
  ctx_score :: rat

record citation =
  cit_time :: rat
  cit_timeString :: string
  cit_text :: string
  cit_startTime :: rat
  cit_endTime :: rat

subsection \<open>The pattern \<open>/\[(\d{1,2}:\d{2}(?::\d{2})?)\]/g\<close>\<close>

text \<open>
  Each matcher returns what it consumed and the rest of the input. \<open>or_else\<close> is the
  regular expression's backtracking: the second alternative is tried when the first,
  together with all that follows it, does not match.
\<close>

definition lit :: "char \<Rightarrow> string \<Rightarrow> string option" where
  "lit c s = (case s of [] \<Rightarrow> None | x # r \<Rightarrow> if x = c then Some r else None)"

definition digitsN :: "nat \<Rightarrow> string \<Rightarrow> (string \<times> string) option" where
  "digitsN n s = (if n \<le> length s \<and> list_all isDigit (take n s)
                  then Some (take n s, drop n s) else None)"

definition or_else :: "'a option \<Rightarrow> 'a option \<Rightarrow> 'a option" where
  "or_else a b = (case a of Some x \<Rightarrow> Some x | None \<Rightarrow> b)"

text \<open>After the leading digits \<open>mm\<close>: \<open>:\d{2}(?::\d{2})?\]\<close>.\<close>

definition match_rest :: "string \<Rightarrow> string \<Rightarrow> (string \<times> string) option" where
  "match_rest mm r =
     (case lit (CHR '':'') r of
        None \<Rightarrow> None
      | Some r1 \<Rightarrow>
          (case digitsN 2 r1 of
             None \<Rightarrow> None
           | Some (ss, r2) \<Rightarrow>
               or_else
                 (case lit (CHR '':'') r2 of
                    None \<Rightarrow> None
                  | Some r3 \<Rightarrow>
                      (case digitsN 2 r3 of
                         None \<Rightarrow> None
                       | Some (tt, r4) \<Rightarrow>
                           (case lit (CHR '']'') r4 of
                              None \<Rightarrow> None
                            | Some r5 \<Rightarrow> Some (mm @ '':'' @ ss @ '':'' @ tt, r5))))
                 (case lit (CHR '']'') r2 of
                    None \<Rightarrow> None
                  | Some r5 \<Rightarrow> Some (mm @ '':'' @ ss, r5))))"

text \<open>A match starting at the first character: the captured group and the rest.\<close>

definition match_token :: "string \<Rightarrow> (string \<times> string) option" where
  "match_token s =
     (case lit (CHR ''['') s of
        None \<Rightarrow> None
      | Some r0 \<Rightarrow>
          or_else
            (case digitsN 2 r0 of None \<Rightarrow> None | Some (mm, r) \<Rightarrow> match_rest mm r)
            (case digitsN 1 r0 of None \<Rightarrow> None | Some (mm, r) \<Rightarrow> match_rest mm r))"

text \<open>
  The loop \<open>while ((match = timestampRegex.exec(response)) !== null)\<close>: the leftmost
  match at or after \<open>lastIndex\<close>, which then moves to the end of the match. After a match
  of a group of \<open>n\<close> characters at the current position, the \<open>n + 1\<close> following characters
  belong to the match and are skipped.
\<close>

fun scan_from :: "nat \<Rightarrow> string \<Rightarrow> string list" where
  "scan_from skip [] = []"
| "scan_from skip (c # cs) =
     (if skip > 0 then scan_from (skip - 1) cs
      else (case match_token (c # cs) of
              None \<Rightarrow> scan_from 0 cs
            | Some (timeString, rest) \<Rightarrow> timeString # scan_from (length timeString + 1) cs))"

definition scan_tokens :: "string \<Rightarrow> string list" where
  "scan_tokens response = scan_from 0 response"

subsection \<open>\<open>extractTimestamps\<close>\<close>

text \<open>
  \<open>context.find(chunk => seconds >= chunk.startTime && seconds <= chunk.endTime)\<close>.
\<close>

definition find_chunk :: "nat \<Rightarrow> context_chunk list \<Rightarrow> context_chunk option" where
  "find_chunk seconds context =
     find (\<lambda>chunk. of_nat seconds \<ge> ctx_startTime chunk \<and> of_nat seconds \<le> ctx_endTime chunk)
       context"

text \<open>
  The body of the loop for one token. A token that \<open>parseTimeString\<close> does not turn into
  a number compares false with every chunk, so nothing is pushed for it.
\<close>

definition token_citation :: "context_chunk list \<Rightarrow> string \<Rightarrow> citation list" where
  "token_citation context timeString =
     (case parseTimeString timeString of
        None \<Rightarrow> []
      | Some seconds \<Rightarrow>
          (case find_chunk seconds context of
             None \<Rightarrow> []
           | Some contextChunk \<Rightarrow>
               [\<lparr>cit_time = of_nat seconds,
                 cit_timeString = timeString,
                 cit_text = take 100 (ctx_text contextChunk) @ ''...'',
                 cit_startTime = ctx_startTime contextChunk,
                 cit_endTime = ctx_endTime contextChunk\<rparr>]))"

definition explicit_citations :: "string \<Rightarrow> context_chunk list \<Rightarrow> citation list" where
  "explicit_citations response context =
     concat (map (token_citation context) (scan_tokens response))"

text \<open>
  The body of \<open>context.forEach\<close> in the fallback: \<open>chunk.endTime || startTime + 30\<close>
  replaces an end time of 0, and a chunk with a negative start time is left out.
\<close>

definition chunk_citation :: "context_chunk \<Rightarrow> citation list" where
  "chunk_citation chunk =
     (let startTime = ctx_startTime chunk;
          endTime = (if ctx_endTime chunk = 0 then startTime + 30 else ctx_endTime chunk)
      in if startTime \<ge> 0
         then [\<lparr>cit_time = startTime,
                cit_timeString = formatTime startTime,
                cit_text = take 100 (ctx_text chunk) @ ''...'',
                cit_startTime = startTime,
                cit_endTime = endTime\<rparr>]
         else [])"

definition fallback_citations :: "context_chunk list \<Rightarrow> citation list" where
  "fallback_citations context = concat (map chunk_citation context)"

text \<open>\<open>xs.findIndex(P)\<close>, \<open>None\<close> for -1.\<close>

fun findIndex :: "('a \<Rightarrow> bool) \<Rightarrow> 'a list \<Rightarrow> nat option" where
  "findIndex P [] = None"
| "findIndex P (x # xs) = (if P x then Some 0 else map_option Suc (findIndex P xs))"

definition within5 :: "citation \<Rightarrow> citation \<Rightarrow> bool" where
  "within5 timestamp t = (\<bar>cit_time t - cit_time timestamp\<bar> < 5)"

text \<open>
  \<open>timestamps.filter((timestamp, index, self) =>
     index === self.findIndex(t => Math.abs(t.time - timestamp.time) < 5))\<close>.
\<close>

definition uniqueTimestamps :: "citation list \<Rightarrow> citation list" where
  "uniqueTimestamps timestamps =
     map snd (filter (\<lambda>(index, timestamp). findIndex (within5 timestamp) timestamps = Some index)
                (enumerate 0 timestamps))"

definition extractTimestamps :: "string \<Rightarrow> context_chunk list \<Rightarrow> citation list" where
  "extractTimestamps response context =
     (let timestamps = explicit_citations response context;
          timestamps = (if length timestamps = 0 \<and> length context > 0
                        then timestamps @ fallback_citations context
                        else timestamps)
      in uniqueTimestamps timestamps)"

section \<open>The world outside the functions\<close>

text \<open>
  The services the pipeline calls are outside the repository: the speech and embedding
  APIs, the vector index, the record store. A run is modelled against an \<open>env\<close> that says
  what each external call answers, and a \<open>world\<close> that holds what the calls leave behind.
  A service that may answer differently on each attempt is a function of the number of
  calls made to it so far. \<open>Inl\<close> of a sum is a thrown error with its message. The record
  store applies every update and delete it is sent; only the two inserts of
  \<open>saveToDatabase\<close>, whose errors the code checks, can be refused.
\<close>

type_synonym vector = "rat list"

record video_row =
  v_status :: string
  v_stage :: string
  v_progress :: nat
  v_error :: "string option"

record transcript_row =
  tr_video_id :: string
  tr_full_text :: string

record chunk_row =
  cr_video_id :: string
  cr_chunk_index :: nat
  cr_chunk_text :: string
  cr_start_time :: rat
  cr_end_time :: rat

record conversation_row =
  cv_video_id :: string
  cv_user_message :: string

record file_metadata =
  fm_title :: string
  fm_subject :: string
  fm_description :: string

record vector_record =
  vr_id :: string
  vr_values :: vector
  vr_videoId :: string
  vr_chunkIndex :: nat
  vr_text :: string
  vr_startTime :: rat
  vr_endTime :: rat
  vr_confidence :: rat
  vr_extra :: file_metadata

datatype index_op = Upsert "string list" | DeleteMany string

record world =
  videos :: "string \<rightharpoonup> video_row"
  transcripts :: "transcript_row list"
  text_chunks :: "chunk_row list"
  chat_conversations :: "conversation_row list"
  pinecone_index :: "vector_record list"
  index_log :: "index_op list"
  index_ready :: bool
  temp_files :: "string list"
  embed_calls :: nat
  upsert_calls :: nat
  uuid_count :: nat
  delays :: "nat list"

record transcription =
  tx_text :: string
  tx_segments :: "segment list"

record match =
  match_id :: string
  match_score :: rat
  match_text :: string
  match_startTime :: rat
  match_endTime :: rat
  match_confidence :: rat

record env =
  audio_extraction :: "string + string"
  whisper :: "string + transcription"
  splitText :: "string \<Rightarrow> nat \<Rightarrow> nat \<Rightarrow> string + string list"
  embeddings_create :: "nat \<Rightarrow> string list \<Rightarrow> string + vector list"
  index_init :: "string option"
  index_upsert :: "nat \<Rightarrow> vector_record list \<Rightarrow> string option"
  index_delete :: "string \<Rightarrow> string option"
  index_query :: "vector \<Rightarrow> nat \<Rightarrow> string option \<Rightarrow> string + match list"
  uuidv4 :: "nat \<Rightarrow> string"
  insert_transcript :: "string option"
  insert_chunks :: "string option"
  chat_completion :: "string \<Rightarrow> context_chunk list \<Rightarrow> string + string"

text \<open>\<open>delay(ms)\<close>: the waits of a run, in order.\<close>

definition delay :: "nat \<Rightarrow> world \<Rightarrow> world" where
  "delay ms w = w\<lparr>delays := delays w @ [ms]\<rparr>"

text \<open>
  \<open>createBatches\<close> (the same in both services). The loop
  \<open>for (i = 0; i < length; i += batchSize)\<close> does not end for a batch size of 0 and a
  non-empty array: \<open>None\<close>.
\<close>

function createBatches :: "'a list \<Rightarrow> nat \<Rightarrow> 'a list list option" where
  "createBatches xs batchSize =
     (if xs = [] then Some []
      else if batchSize = 0 then None
      else map_option ((#) (take batchSize xs)) (createBatches (drop batchSize xs) batchSize))"
  by pat_completeness auto
termination
  by (relation "measure (\<lambda>(xs, batchSize). length xs)") auto

declare createBatches.simps [simp del]

section \<open>Embedder (embeddingService.js)\<close>

definition embedding_model :: string where
  "embedding_model = ''text-embedding-3-large''"

definition batchSize :: nat where
  "batchSize = 100"

definition maxRetries :: nat where
  "maxRetries = 3"

definition retryDelay :: nat where
  "retryDelay = 1000"

record embedded_chunk = chunk +
  embedding :: "vector option"
  embeddingModel :: "string option"
  embeddingDimensions :: "nat option"
  embeddingError :: "string option"

text \<open>
  \<open>prepareTextForEmbedding\<close>: trimmed, every run of white space replaced by one space,
  cut at 8000 characters.
\<close>

definition prepareTextForEmbedding :: "string \<Rightarrow> string" where
  "prepareTextForEmbedding text =
     (if text = [] then [] else take 8000 (join_space (split_ws (trim text))))"



definition with_embedding :: "chunk \<Rightarrow> vector \<Rightarrow> embedded_chunk" where
  "with_embedding c v =
     chunk.extend c \<lparr>embedding = Some v, embeddingModel = Some embedding_model,
       embeddingDimensions = Some (length v), embeddingError = None\<rparr>"

definition without_embedding :: "chunk \<Rightarrow> string \<Rightarrow> embedded_chunk" where
  "without_embedding c error =
     chunk.extend c \<lparr>embedding = None, embeddingModel = None,
       embeddingDimensions = None, embeddingError = Some error\<rparr>"

definition type_error :: string where
  "type_error = ''Cannot read properties of undefined (reading embedding)''"







section \<open>Vector index (pineconeService.js)\<close>

text \<open>
  The service has its own \<open>batchSize\<close>, \<open>maxRetries\<close> and \<open>retryDelay\<close>, with the values
  of the embedder's (100, 3, 1000); the same constants are used here.
\<close>

record storage_result =
  totalVectors :: nat
  successfulBatches :: nat
  failedBatches :: nat
  errors :: "(nat \<times> string) list"

text \<open>
  \<open>initializeIndex\<close>: looking the index up (and creating it) either succeeds, after
  which \<open>this.index\<close> is set, or throws.
\<close>

definition initializeIndex :: "env \<Rightarrow> world \<Rightarrow> string option \<times> world" where
  "initializeIndex e w =
     (case index_init e of
        Some error \<Rightarrow> (Some (''Pinecone initialization failed: '' @ error), w)
      | None \<Rightarrow> (None, w\<lparr>index_ready := True\<rparr>))"

text \<open>An upsert replaces the records that have the same identifier.\<close>

definition upsert_into :: "vector_record list \<Rightarrow> vector_record list \<Rightarrow> vector_record list" where
  "upsert_into index vectors =
     filter (\<lambda>r. vr_id r \<notin> set (map vr_id vectors)) index @ vectors"

function upsertVectors ::
  "env \<Rightarrow> vector_record list \<Rightarrow> nat \<Rightarrow> world \<Rightarrow> string option \<times> world" where
  "upsertVectors e vectors retryCount w =
     (case index_upsert e (upsert_calls w) vectors of
        None \<Rightarrow>
          (None, w\<lparr>upsert_calls := upsert_calls w + 1,
                   pinecone_index := upsert_into (pinecone_index w) vectors,
                   index_log := index_log w @ [Upsert (map vr_id vectors)]\<rparr>)
      | Some error \<Rightarrow>
          if retryCount < maxRetries
          then upsertVectors e vectors (retryCount + 1)
                 (delay (retryDelay * 2 ^ retryCount) (w\<lparr>upsert_calls := upsert_calls w + 1\<rparr>))
          else (Some error, w\<lparr>upsert_calls := upsert_calls w + 1\<rparr>))"
  by pat_completeness auto
termination
  by (relation "measure (\<lambda>(e, vectors, retryCount, w). maxRetries - retryCount)") auto

declare upsertVectors.simps [simp del]

text \<open>
  The vector prepared for one chunk; \<open>n\<close> is the number of identifiers \<open>uuidv4()\<close> has
  generated before.
\<close>

definition chunk_vector ::
  "env \<Rightarrow> string \<Rightarrow> file_metadata \<Rightarrow> nat \<Rightarrow> embedded_chunk \<Rightarrow> vector_record" where
  "chunk_vector e videoId metadata n c =
     \<lparr>vr_id = videoId @ ''_chunk_'' @ toString (chunk_index c) @ ''_'' @ uuidv4 e n,
      vr_values = (case embedding c of None \<Rightarrow> [] | Some v \<Rightarrow> v),
      vr_videoId = videoId,
      vr_chunkIndex = chunk_index c,
      vr_text = chunk_text c,
      vr_startTime = chunk_startTime c,
      vr_endTime = chunk_endTime c,
      vr_confidence = chunk_confidence c,
      vr_extra = metadata\<rparr>"

text \<open>
  The loop over the batches in \<open>storeChunks\<close>, \<open>i\<close> counting the batches done: a batch
  whose upsert fails after all retries is counted and its error kept, and the loop goes on.
\<close>

fun store_batches ::
  "env \<Rightarrow> vector_record list list \<Rightarrow> nat \<Rightarrow> storage_result \<Rightarrow> world
     \<Rightarrow> storage_result \<times> world" where
  "store_batches e [] i results w = (results, w)"
| "store_batches e (batch # batches) i results w =
     (case upsertVectors e batch 0 w of
        (None, w1) \<Rightarrow>
          store_batches e batches (i + 1)
            (results\<lparr>successfulBatches := successfulBatches results + 1\<rparr>)
            (if batches \<noteq> [] then delay 500 w1 else w1)
      | (Some error, w1) \<Rightarrow>
          store_batches e batches (i + 1)
            (results\<lparr>failedBatches := failedBatches results + 1,
                      errors := errors results @ [(i + 1, error)]\<rparr>)
            w1)"

definition has_valid_embedding :: "embedded_chunk \<Rightarrow> bool" where
  "has_valid_embedding c = (case embedding c of None \<Rightarrow> False | Some v \<Rightarrow> length v > 0)"

text \<open>\<open>storeChunks\<close>; \<open>None\<close> when it does not return.\<close>

definition storeChunks ::
  "env \<Rightarrow> string \<Rightarrow> embedded_chunk list \<Rightarrow> file_metadata \<Rightarrow> world
     \<Rightarrow> ((string + storage_result) \<times> world) option" where
  "storeChunks e videoId chunks metadata w =
     (case (if index_ready w then (None, w) else initializeIndex e w) of
        (Some error, w1) \<Rightarrow> Some (Inl (''Pinecone storage failed: '' @ error), w1)
      | (None, w1) \<Rightarrow>
          (let validChunks = filter has_valid_embedding chunks
           in if length validChunks = 0
              then Some (Inl ''Pinecone storage failed: No valid chunks with embeddings to store'',
                         w1)
              else
                (let vectors = map (\<lambda>(k, c). chunk_vector e videoId metadata (uuid_count w1 + k) c)
                                 (enumerate 0 validChunks);
                     w2 = w1\<lparr>uuid_count := uuid_count w1 + length validChunks\<rparr>
                 in case createBatches vectors batchSize of
                      None \<Rightarrow> None
                    | Some batches \<Rightarrow>
                        (case store_batches e batches 0
                                \<lparr>totalVectors = length vectors, successfulBatches = 0,
                                 failedBatches = 0, errors = []\<rparr> w2 of
                           (results, w3) \<Rightarrow> Some (Inr results, w3)))))"

text \<open>
  \<open>deleteVideoVectors\<close>: the request to delete every record of the recording is logged
  when it is sent; the index answers with an error or removes the records.
\<close>

definition deleteVideoVectors :: "env \<Rightarrow> string \<Rightarrow> world \<Rightarrow> string option \<times> world" where
  "deleteVideoVectors e videoId w =
     (case (if index_ready w then (None, w) else initializeIndex e w) of
        (Some error, w1) \<Rightarrow> (Some (''Vector deletion failed: '' @ error), w1)
      | (None, w1) \<Rightarrow>
          (let w2 = w1\<lparr>index_log := index_log w1 @ [DeleteMany videoId]\<rparr>
           in case index_delete e videoId of
                Some error \<Rightarrow> (Some (''Vector deletion failed: '' @ error), w2)
              | None \<Rightarrow>
                  (None, w2\<lparr>pinecone_index :=
                              filter (\<lambda>r. vr_videoId r \<noteq> videoId) (pinecone_index w2)\<rparr>)))"

text \<open>
  \<open>searchSimilar\<close>: the index is asked for the \<open>topK\<close> nearest records with the
  recording as filter (no filter for an empty \<open>videoId\<close>), and the matches below
  \<open>minScore\<close> are dropped.
\<close>

definition searchSimilar ::
  "env \<Rightarrow> world \<Rightarrow> vector \<Rightarrow> string \<Rightarrow> nat \<Rightarrow> rat \<Rightarrow> string + match list" where
  "searchSimilar e w queryEmbedding videoId topK minScore =
     (case (if index_ready w then (None, w) else initializeIndex e w) of
        (Some error, _) \<Rightarrow> Inl (''Pinecone search failed: '' @ error)
      | (None, _) \<Rightarrow>
          (case index_query e queryEmbedding topK (if videoId = [] then None else Some videoId) of
             Inl error \<Rightarrow> Inl (''Pinecone search failed: '' @ error)
           | Inr matches \<Rightarrow> Inr (filter (\<lambda>m. match_score m \<ge> minScore) matches)))"

section \<open>Retrieval (chat route)\<close>

datatype service_call =
  EmbedQuery string
| SearchSimilar string nat rat
| GenerateAnswer string "context_chunk list"

record answer_source =
  src_text :: string
  src_startTime :: rat
  src_endTime :: rat
  src_score :: rat

record rag_response =
  rag_text :: string
  rag_timestamps :: "citation list"
  rag_sources :: "answer_source list"

definition not_found_text :: string where
  "not_found_text = ''I couldn't find relevant information in this video to answer your question. This might be because the video hasn't been fully processed yet, or your question is about content not covered in this video. Could you try rephrasing your question or asking about a different topic?''"

definition not_found_response :: rag_response where
  "not_found_response = \<lparr>rag_text = not_found_text, rag_timestamps = [], rag_sources = []\<rparr>"

text \<open>
  \<open>generateQueryEmbedding\<close>: one request to the embedding API, without retry; \<open>n\<close> is
  the number of requests made before.
\<close>

definition generateQueryEmbedding :: "env \<Rightarrow> nat \<Rightarrow> string \<Rightarrow> string + vector" where
  "generateQueryEmbedding e n query =
     (if query = [] \<or> length (trim query) = 0
      then Inl ''Query embedding failed: Invalid query for embedding''
      else case embeddings_create e n [prepareTextForEmbedding query] of
             Inl error \<Rightarrow> Inl (''Query embedding failed: '' @ error)
           | Inr response \<Rightarrow>
               (case response of
                  [] \<Rightarrow> Inl (''Query embedding failed: '' @ type_error)
                | v # _ \<Rightarrow> Inr v))"

text \<open>Step 3 of \<open>generateRAGResponse\<close>: the context built from the search results.\<close>

definition make_context :: "match list \<Rightarrow> context_chunk list" where
  "make_context searchResults =
     map (\<lambda>(index, result).
            \<lparr>ctx_index = index + 1,
             ctx_text = match_text result,
             ctx_startTime = match_startTime result,
             ctx_endTime = match_endTime result,
             ctx_confidence = match_confidence result,
             ctx_score = match_score result\<rparr>)
       (enumerate 0 searchResults)"

text \<open>
  Steps 3 to 5: the context, the generated answer (\<open>generateAIResponse\<close>, whose prompt
  is built from the message and the context), the citations and the sources. \<open>calls\<close>
  are the service calls made so far.
\<close>

definition answer_from ::
  "env \<Rightarrow> service_call list \<Rightarrow> string \<Rightarrow> match list \<Rightarrow> service_call list \<times> (string + rag_response)" where
  "answer_from e calls message searchResults =
     (let context = make_context searchResults;
          calls = calls @ [GenerateAnswer message context]
      in case chat_completion e message context of
           Inl error \<Rightarrow>
             (calls, Inl (''RAG response generation failed: AI response generation failed: ''
                           @ error))
         | Inr aiResponse \<Rightarrow>
             (calls,
              Inr \<lparr>rag_text = aiResponse,
                   rag_timestamps = extractTimestamps aiResponse context,
                   rag_sources = map (\<lambda>c. \<lparr>src_text = take 200 (ctx_text c) @ ''...'',
                                              src_startTime = ctx_startTime c,
                                              src_endTime = ctx_endTime c,
                                              src_score = ctx_score c\<rparr>) context\<rparr>))"

text \<open>
  \<open>generateRAGResponse\<close>, with the calls it makes to the embedder, the index and the
  generator, in order. Every error is rethrown with the prefix of the \<open>catch\<close>.
\<close>

definition generateRAGResponse ::
  "env \<Rightarrow> world \<Rightarrow> string \<Rightarrow> string \<Rightarrow> service_call list \<times> (string + rag_response)" where
  "generateRAGResponse e w message videoId =
     (case generateQueryEmbedding e (embed_calls w) message of
        Inl error \<Rightarrow>
          ([EmbedQuery message], Inl (''RAG response generation failed: '' @ error))
      | Inr queryEmbedding \<Rightarrow>
          (case searchSimilar e w queryEmbedding videoId 5 (3 / 10) of
             Inl error \<Rightarrow>
               ([EmbedQuery message, SearchSimilar videoId 5 (3 / 10)],
                Inl (''RAG response generation failed: '' @ error))
           | Inr searchResults \<Rightarrow>
               if length searchResults = 0
               then
                 (case searchSimilar e (w\<lparr>index_ready := True\<rparr>) queryEmbedding videoId 3 (1 / 10) of
                    Inl error \<Rightarrow>
                      ([EmbedQuery message, SearchSimilar videoId 5 (3 / 10),
                        SearchSimilar videoId 3 (1 / 10)],
                       Inl (''RAG response generation failed: '' @ error))
                  | Inr fallbackResults \<Rightarrow>
                      if length fallbackResults = 0
                      then ([EmbedQuery message, SearchSimilar videoId 5 (3 / 10),
                             SearchSimilar videoId 3 (1 / 10)],
                            Inr not_found_response)
                      else answer_from e
                             [EmbedQuery message, SearchSimilar videoId 5 (3 / 10),
                              SearchSimilar videoId 3 (1 / 10)]
                             message (searchResults @ fallbackResults))
               else answer_from e [EmbedQuery message, SearchSimilar videoId 5 (3 / 10)]
                      message searchResults))"

section \<open>Pipeline orchestrator (processingService.js)\<close>

definition UPLOADING :: string where "UPLOADING = ''uploading''"













section \<open>Reprocess route (processing route)\<close>

datatype http_response = Http nat string

text \<open>
  \<open>POST /reprocess/:videoId\<close>. A failure of the index deletion is only logged; the
  rows of the recording are deleted from the three tables, and the recording is reset.
\<close>

definition reprocess :: "env \<Rightarrow> string \<Rightarrow> world \<Rightarrow> http_response \<times> world" where
  "reprocess e videoId w =
     (case videos w videoId of
        None \<Rightarrow> (Http 404 ''Video not found'', w)
      | Some videoData \<Rightarrow>
          if v_status videoData = ''processing''
          then (Http 400 ''Video is already being processed'', w)
          else
            (let w1 = snd (deleteVideoVectors e videoId w);
                 w2 = w1\<lparr>chat_conversations :=
                          filter (\<lambda>r. cv_video_id r \<noteq> videoId) (chat_conversations w1)\<rparr>;
                 w3 = w2\<lparr>text_chunks :=
                          filter (\<lambda>r. cr_video_id r \<noteq> videoId) (text_chunks w2)\<rparr>;
                 w4 = w3\<lparr>transcripts :=
                          filter (\<lambda>r. tr_video_id r \<noteq> videoId) (transcripts w3)\<rparr>;
                 w5 = w4\<lparr>videos := (videos w4)(videoId \<mapsto>
                          videoData\<lparr>v_status := ''processing'',
                                    v_stage := ''uploading'',
                                    v_progress := 5,
                                    v_error := None\<rparr>)\<rparr>
             in (Http 200 ''Reprocessing started. Note: Original file must still be available.'',
                 w5)))"

section \<open>What a stage leaves in place\<close>

definition is_upsert :: "index_op \<Rightarrow> bool" where
  "is_upsert op = (case op of Upsert ids \<Rightarrow> True | DeleteMany videoId \<Rightarrow> False)"

text \<open>
  \<open>store_kept w w'\<close>: from \<open>w\<close> to \<open>w'\<close> the tables of the record store are unchanged and
  the only requests sent to the index are upserts.
\<close>

definition store_kept :: "world \<Rightarrow> world \<Rightarrow> bool" where
  "store_kept w w' =
     (videos w' = videos w \<and> transcripts w' = transcripts w \<and>
      text_chunks w' = text_chunks w \<and> chat_conversations w' = chat_conversations w \<and>
      (\<exists>ops. index_log w' = index_log w @ ops \<and> list_all is_upsert ops))"

text \<open>
  \<open>nothing_removed videoId w w'\<close>: the other recordings are unchanged, the recording is
  still there, the tables have only grown at the end, and the only requests sent to the
  index are upserts.
\<close>

definition nothing_removed :: "string \<Rightarrow> world \<Rightarrow> world \<Rightarrow> bool" where
  "nothing_removed videoId w w' =
     ((\<forall>k. k \<noteq> videoId \<longrightarrow> videos w' k = videos w k) \<and>
      (videos w videoId \<noteq> None \<longrightarrow> videos w' videoId \<noteq> None) \<and>
      (\<exists>ts. transcripts w' = transcripts w @ ts) \<and>
      (\<exists>cs. text_chunks w' = text_chunks w @ cs) \<and>
      chat_conversations w' = chat_conversations w \<and>
      (\<exists>ops. index_log w' = index_log w @ ops \<and> list_all is_upsert ops))"

section \<open>A world and an environment to run the functions in\<close>

text \<open>
  \<open>empty_world\<close> is a world in which nothing has happened yet. In \<open>calm_env\<close> every
  external call succeeds: the splitter returns the text as one piece, the embedding API
  one vector per text, the index accepts every request and finds nothing. The concrete
  runs below change one answer at a time.
\<close>

definition empty_world :: world where
  "empty_world =
     \<lparr>videos = Map.empty, transcripts = [], text_chunks = [], chat_conversations = [],
      pinecone_index = [], index_log = [], index_ready = False, temp_files = [], embed_calls = 0,
      upsert_calls = 0, uuid_count = 0, delays = []\<rparr>"

definition calm_env :: env where
  "calm_env =
     \<lparr>audio_extraction = Inr ''temp/audio.wav'',
      whisper = Inr \<lparr>tx_text = ''hello world'',
                     tx_segments = [\<lparr>seg_start = 0, seg_end = 2, seg_text = ''hello world'',
                                     seg_confidence = 0\<rparr>]\<rparr>,
      splitText = (\<lambda>text chunkSize overlap. Inr [text]),
      embeddings_create = (\<lambda>n texts. Inr (map (\<lambda>t. [1, 0]) texts)),
      index_init = None,
      index_upsert = (\<lambda>n vectors. None),
      index_delete = (\<lambda>videoId. None),
      index_query = (\<lambda>v topK videoFilter. Inr []),
      uuidv4 = (\<lambda>n. ''uuid-'' @ toString n),
      insert_transcript = None,
      insert_chunks = None,
      chat_completion = (\<lambda>message context. Inr ''It is explained at [00:01].'')\<rparr>"

definition example_chunk :: chunk where
  "example_chunk =
     \<lparr>chunk_index = 0, chunk_text = ''hello world'', chunk_length = 11, chunk_wordCount = 2,
      chunk_startTime = 0, chunk_endTime = 2, chunk_confidence = 0\<rparr>"

definition example_metadata :: file_metadata where
  "example_metadata = \<lparr>fm_title = ''Lecture 1'', fm_subject = ''ml'', fm_description = ''intro''\<rparr>"



text \<open>
  A recording \<open>v1\<close> whose processing failed after one vector, the transcript and one chunk
  had been written; and an index that refuses deletions.
\<close>

definition failed_world :: world where
  "failed_world =
     empty_world\<lparr>videos := [''v1'' \<mapsto> \<lparr>v_status = ''failed'', v_stage = ''failed'',
                                         v_progress = 0, v_error = Some ''boom''\<rparr>],
                 transcripts := [\<lparr>tr_video_id = ''v1'', tr_full_text = ''hello world''\<rparr>],
                 text_chunks := [\<lparr>cr_video_id = ''v1'', cr_chunk_index = 0,
                                  cr_chunk_text = ''hello world'', cr_start_time = 0,
                                  cr_end_time = 2\<rparr>],
                 pinecone_index := [chunk_vector calm_env ''v1'' example_metadata 0
                                      (with_embedding example_chunk [1, 0])],
                 index_ready := True\<rparr>"

definition index_refusing_env :: env where
  "index_refusing_env = calm_env\<lparr>index_delete := (\<lambda>videoId. Some ''index unavailable'')\<rparr>"

section \<open>Properties of the time tokens\<close>






















section \<open>Properties of the chunker\<close>

lemma approximate_loop_containing:
  "approximate_loop segs q pos =
     (case containing segs pos q of
        Some s \<Rightarrow> \<lparr>ts_start = seg_start s, ts_end = seg_end s,
                   ts_confidence = seg_confidence s * (7 / 10)\<rparr>
      | None \<Rightarrow> no_timestamps)"
  by (induction segs arbitrary: pos) (simp_all add: containing_def contains_pos_def Let_def)

lemma overlap_loop_overlapping:
  "overlap_loop segs cs ce st en tot cnt pos =
     (case overlapping segs pos cs ce of
        [] \<Rightarrow> (st, en, tot, cnt)
      | s # ss \<Rightarrow> (if st = None then Some (seg_start s) else st,
                   Some (seg_end (last (s # ss))),
                   tot + sum_list (map seg_confidence (s # ss)),
                   cnt + length (s # ss)))"
proof (induction segs arbitrary: st en tot cnt pos)
  case Nil
  show ?case by (simp add: overlapping_def)
next
  case (Cons seg segs)
  show ?case
  proof (cases "overlaps cs ce (pos, seg)")
    case True
    then have step: "overlap_loop (seg # segs) cs ce st en tot cnt pos =
        overlap_loop segs cs ce (if st = None then Some (seg_start seg) else st)
          (Some (seg_end seg)) (tot + seg_confidence seg) (cnt + 1)
          (pos + length (seg_text seg))"
      by (simp add: overlaps_def Let_def)
    have ov: "overlapping (seg # segs) pos cs ce =
        seg # overlapping segs (pos + length (seg_text seg)) cs ce"
      using True by (simp add: overlapping_def)
    show ?thesis
      unfolding step ov Cons.IH
      by (cases "overlapping segs (pos + length (seg_text seg)) cs ce")
        (simp_all add: add.assoc)
  next
    case False
    then have step: "overlap_loop (seg # segs) cs ce st en tot cnt pos =
        overlap_loop segs cs ce st en tot cnt (pos + length (seg_text seg))"
      by (auto simp: overlaps_def Let_def)
    have ov: "overlapping (seg # segs) pos cs ce =
        overlapping segs (pos + length (seg_text seg)) cs ce"
      using False by (simp add: overlapping_def)
    show ?thesis
      unfolding step ov Cons.IH by simp
  qed
qed

lemma overlapping_Nil [simp]: "overlapping [] pos cs ce = []"
  by (simp add: overlapping_def)

lemma containing_Nil [simp]: "containing [] pos q = None"
  by (simp add: containing_def)

lemma mapChunkToTimestamps_unfold:
  "mapChunkToTimestamps chunk fullText segments = spec_reconcile chunk fullText segments"
proof (cases "segments = []")
  case True
  then show ?thesis
    by (simp add: mapChunkToTimestamps_def spec_reconcile_def split: option.split)
next
  case False
  show ?thesis
  proof (cases "indexOf fullText (trim chunk)")
    case None
    with False show ?thesis
      by (simp add: mapChunkToTimestamps_def spec_reconcile_def findApproximateTimestamps_def
          approximate_loop_containing Let_def split: option.split)
  next
    case (Some p)
    show ?thesis
    proof (cases "overlapping segments 0 p (p + length chunk)")
      case Nil
      with False Some show ?thesis
        by (simp add: mapChunkToTimestamps_def spec_reconcile_def overlap_loop_overlapping
            or_zero_def no_timestamps_def)
    next
      case (Cons s ss)
      with False Some show ?thesis
        by (simp add: mapChunkToTimestamps_def spec_reconcile_def overlap_loop_overlapping
            or_zero_def average_def)
    qed
  qed
qed


text \<open>
  C4. The timestamps of a chunk are those of the reconciliation in three steps: the exact
  locate of the trimmed chunk with the first overlapping segment's start, the last one's
  end and the average confidence; otherwise the locate of the first five words with the
  containing segment's times and 0.7 of its confidence; otherwise all zero. Where a locate
  succeeds and no segment overlaps the range or contains the position, the result is all
  zero as well.
\<close>

theorem mapChunkToTimestamps_reconcile:
  "mapChunkToTimestamps chunk fullText segments = spec_reconcile chunk fullText segments"
proof (cases "segments = []")
  case True
  then show ?thesis
    by (simp add: mapChunkToTimestamps_def spec_reconcile_def split: option.split)
next
  case False
  show ?thesis
  proof (cases "indexOf fullText (trim chunk)")
    case None
    with False show ?thesis
      by (simp add: mapChunkToTimestamps_def spec_reconcile_def findApproximateTimestamps_def
          approximate_loop_containing Let_def split: option.split)
  next
    case (Some p)
    show ?thesis
    proof (cases "overlapping segments 0 p (p + length chunk)")
      case Nil
      with False Some show ?thesis
        by (simp add: mapChunkToTimestamps_def spec_reconcile_def overlap_loop_overlapping
            or_zero_def no_timestamps_def)
    next
      case (Cons s ss)
      with False Some show ?thesis
        by (simp add: mapChunkToTimestamps_def spec_reconcile_def overlap_loop_overlapping
            or_zero_def average_def)
    qed
  qed
qed

subsection \<open>Order of the chunk times\<close>

lemma with_offsets_ge: "(k, s) \<in> set (with_offsets segs pos) \<Longrightarrow> pos \<le> k"
  by (induction segs arbitrary: pos) fastforce+

lemma with_offsets_snd: "map snd (with_offsets segs pos) = segs"
  by (induction segs arbitrary: pos) simp_all

lemma overlapping_subset: "set (overlapping segs pos cs ce) \<subseteq> set segs"
proof -
  have "set (overlapping segs pos cs ce) \<subseteq> set (map snd (with_offsets segs pos))"
    by (auto simp: overlapping_def)
  then show ?thesis by (simp only: with_offsets_snd)
qed

lemma overlapping_past_end: "ce \<le> pos \<Longrightarrow> overlapping segs pos cs ce = []"
proof -
  assume "ce \<le> pos"
  then have "\<And>p. p \<in> set (with_offsets segs pos) \<Longrightarrow> \<not> overlaps cs ce p"
    using with_offsets_ge by (fastforce simp: overlaps_def)
  then show ?thesis
    by (simp add: overlapping_def filter_empty_conv)
qed

lemma overlapping_sorted:
  "sorted (map seg_start segs) \<Longrightarrow> sorted (map seg_start (overlapping segs pos cs ce))"
proof (induction segs arbitrary: pos)
  case Nil
  show ?case by simp
next
  case (Cons seg segs)
  then have tl: "sorted (map seg_start (overlapping segs (pos + length (seg_text seg)) cs ce))"
    by simp
  show ?case
  proof (cases "overlaps cs ce (pos, seg)")
    case True
    then have ov: "overlapping (seg # segs) pos cs ce =
        seg # overlapping segs (pos + length (seg_text seg)) cs ce"
      by (simp add: overlapping_def)
    have "\<forall>s \<in> set (overlapping segs (pos + length (seg_text seg)) cs ce).
            seg_start seg \<le> seg_start s"
      using Cons.prems overlapping_subset [of segs "pos + length (seg_text seg)" cs ce]
      by auto
    with tl show ?thesis
      unfolding ov by simp
  next
    case False
    then have "overlapping (seg # segs) pos cs ce =
        overlapping segs (pos + length (seg_text seg)) cs ce"
      by (simp add: overlapping_def)
    with tl show ?thesis by simp
  qed
qed

lemma overlapping_first_mono:
  assumes "sorted (map seg_start segs)" and "p \<le> q"
    and "overlapping segs pos p pe = a # as"
    and "overlapping segs pos q qe = b # bs"
  shows "seg_start a \<le> seg_start b"
  using assms
proof (induction segs arbitrary: pos)
  case Nil
  then show ?case by simp
next
  case (Cons seg segs)
  let ?next = "pos + length (seg_text seg)"
  have b_in: "b \<in> set (seg # segs)"
    using overlapping_subset [of "seg # segs" pos q qe] Cons.prems(4) by auto
  show ?case
  proof (cases "overlaps p pe (pos, seg)")
    case True
    then have "overlapping (seg # segs) pos p pe = seg # overlapping segs ?next p pe"
      by (simp add: overlapping_def)
    with Cons.prems(3) have "a = seg" by simp
    with b_in Cons.prems(1) show ?thesis by auto
  next
    case notP: False
    then have ovp: "overlapping (seg # segs) pos p pe = overlapping segs ?next p pe"
      by (simp add: overlapping_def)
    show ?thesis
    proof (cases "overlaps q qe (pos, seg)")
      case True
      with notP Cons.prems(2) have "pe \<le> ?next"
        by (simp add: overlaps_def)
      then have "overlapping segs ?next p pe = []"
        by (rule overlapping_past_end)
      with ovp Cons.prems(3) show ?thesis by simp
    next
      case False
      then have ovq: "overlapping (seg # segs) pos q qe = overlapping segs ?next q qe"
        by (simp add: overlapping_def)
      from Cons.prems(1) have "sorted (map seg_start segs)" by simp
      from Cons.IH [OF this Cons.prems(2)] ovp ovq Cons.prems(3,4)
      show ?thesis by simp
    qed
  qed
qed

lemma containing_in: "containing segs pos q = Some s \<Longrightarrow> s \<in> set segs"
proof -
  assume "containing segs pos q = Some s"
  then obtain p where "find (contains_pos q) (with_offsets segs pos) = Some p" "snd p = s"
    by (auto simp: containing_def)
  then have "p \<in> set (with_offsets segs pos)"
    by (auto simp: find_Some_iff)
  then have "snd p \<in> set (map snd (with_offsets segs pos))"
    by simp
  with \<open>snd p = s\<close> show ?thesis
    by (simp only: with_offsets_snd)
qed

lemma spec_reconcile_start_le_end:
  assumes "sorted (map seg_start segs)" and "\<forall>s \<in> set segs. seg_start s \<le> seg_end s"
  shows "ts_start (spec_reconcile chunk fullText segs) \<le> ts_end (spec_reconcile chunk fullText segs)"
proof (cases "indexOf fullText (trim chunk)")
  case None
  show ?thesis
  proof (cases "indexOf fullText (join_space (take 5 (split_ws (trim chunk))))")
    case nf: None
    with None show ?thesis by (simp add: spec_reconcile_def no_timestamps_def)
  next
    case (Some q)
    show ?thesis
    proof (cases "containing segs 0 q")
      case nc: None
      with None Some show ?thesis by (simp add: spec_reconcile_def no_timestamps_def)
    next
      case (Some s)
      then have "s \<in> set segs" by (rule containing_in)
      with assms(2) have "seg_start s \<le> seg_end s" by simp
      with None \<open>indexOf fullText (join_space (take 5 (split_ws (trim chunk)))) = Some q\<close> Some
      show ?thesis by (simp add: spec_reconcile_def)
    qed
  qed
next
  case (Some p)
  show ?thesis
  proof (cases "overlapping segs 0 p (p + length chunk)")
    case Nil
    with Some show ?thesis by (simp add: spec_reconcile_def no_timestamps_def)
  next
    case (Cons s ss)
    have srt: "sorted (map seg_start (s # ss))"
      using overlapping_sorted [OF assms(1), of 0 p "p + length chunk"] Cons by simp
    have "last (s # ss) \<in> set (s # ss)" by (rule last_in_set) simp
    then have l1: "seg_start s \<le> seg_start (last (s # ss))"
      using srt by auto
    have "last (s # ss) \<in> set segs"
      using overlapping_subset [of segs 0 p "p + length chunk"] Cons
        \<open>last (s # ss) \<in> set (s # ss)\<close> by auto
    with assms(2) have "seg_start (last (s # ss)) \<le> seg_end (last (s # ss))" by simp
    with l1 have "seg_start s \<le> seg_end (last (s # ss))" by simp
    with Some Cons show ?thesis by (simp add: spec_reconcile_def)
  qed
qed

lemma spec_reconcile_start_mono:
  assumes "sorted (map seg_start segs)" and "p \<le> q"
    and "indexOf fullText (trim c1) = Some p" and "indexOf fullText (trim c2) = Some q"
    and "overlapping segs 0 p (p + length c1) \<noteq> []"
    and "overlapping segs 0 q (q + length c2) \<noteq> []"
  shows "ts_start (spec_reconcile c1 fullText segs) \<le> ts_start (spec_reconcile c2 fullText segs)"
proof -
  from assms(5) obtain a as where a: "overlapping segs 0 p (p + length c1) = a # as"
    by (cases "overlapping segs 0 p (p + length c1)") auto
  from assms(6) obtain b bs where b: "overlapping segs 0 q (q + length c2) = b # bs"
    by (cases "overlapping segs 0 q (q + length c2)") auto
  have "seg_start a \<le> seg_start b"
    using overlapping_first_mono [OF assms(1,2) a b] .
  with assms(3,4) a b show ?thesis
    by (simp add: spec_reconcile_def)
qed

lemma chunkText_length: "length (chunkText textChunks fullText segments) = length textChunks"
  by (simp add: chunkText_def)

lemma chunkText_nth_start:
  "i < length textChunks \<Longrightarrow>
   chunk_startTime (chunkText textChunks fullText segments ! i) =
     ts_start (spec_reconcile (textChunks ! i) fullText segments)"
  by (simp add: chunkText_def chunkWithMetadata_def nth_enumerate_eq Let_def
      mapChunkToTimestamps_unfold)

lemma chunkText_nth_end:
  "i < length textChunks \<Longrightarrow>
   chunk_endTime (chunkText textChunks fullText segments ! i) =
     ts_end (spec_reconcile (textChunks ! i) fullText segments)"
  by (simp add: chunkText_def chunkWithMetadata_def nth_enumerate_eq Let_def
      mapChunkToTimestamps_unfold)

text \<open>
  C3 (as amended). Let the segments have non-decreasing start times and let every segment
  start no later than it ends. Then every chunk starts no later than it ends; and for chunk
  indices \<open>i < j\<close>, the start of chunk \<open>i\<close> is at most the start of chunk \<open>j\<close> whenever
  both are found by the exact locate, chunk \<open>i\<close> at a position not after that of chunk
  \<open>j\<close>, and each overlaps at least one segment.
\<close>

theorem chunkText_times:
  assumes "sorted (map seg_start segments)"
    and "\<forall>s \<in> set segments. seg_start s \<le> seg_end s"
  shows "(\<forall>i < length textChunks.
            chunk_startTime (chunkText textChunks fullText segments ! i)
              \<le> chunk_endTime (chunkText textChunks fullText segments ! i)) \<and>
         (\<forall>i j p q. i < j \<and> j < length textChunks \<and>
            indexOf fullText (trim (textChunks ! i)) = Some p \<and>
            indexOf fullText (trim (textChunks ! j)) = Some q \<and> p \<le> q \<and>
            overlapping segments 0 p (p + length (textChunks ! i)) \<noteq> [] \<and>
            overlapping segments 0 q (q + length (textChunks ! j)) \<noteq> [] \<longrightarrow>
            chunk_startTime (chunkText textChunks fullText segments ! i)
              \<le> chunk_startTime (chunkText textChunks fullText segments ! j))"
proof (intro conjI allI impI)
  fix i assume "i < length textChunks"
  then show "chunk_startTime (chunkText textChunks fullText segments ! i)
               \<le> chunk_endTime (chunkText textChunks fullText segments ! i)"
    using spec_reconcile_start_le_end [OF assms, of "textChunks ! i" fullText]
    by (simp add: chunkText_nth_start chunkText_nth_end)
next
  fix i j p q
  assume h: "i < j \<and> j < length textChunks \<and>
            indexOf fullText (trim (textChunks ! i)) = Some p \<and>
            indexOf fullText (trim (textChunks ! j)) = Some q \<and> p \<le> q \<and>
            overlapping segments 0 p (p + length (textChunks ! i)) \<noteq> [] \<and>
            overlapping segments 0 q (q + length (textChunks ! j)) \<noteq> []"
  then have i: "i < length textChunks" and j: "j < length textChunks" by simp_all
  from h have "ts_start (spec_reconcile (textChunks ! i) fullText segments)
                 \<le> ts_start (spec_reconcile (textChunks ! j) fullText segments)"
    using spec_reconcile_start_mono [OF assms(1), of p q fullText "textChunks ! i" "textChunks ! j"]
    by simp
  with i j show "chunk_startTime (chunkText textChunks fullText segments ! i)
                   \<le> chunk_startTime (chunkText textChunks fullText segments ! j)"
    by (simp add: chunkText_nth_start)
qed

lemma example_segments_sorted:
  "sorted (map seg_start
     [\<lparr>seg_start = 0, seg_end = 1, seg_text = ''aa '', seg_confidence = 0\<rparr>,
      \<lparr>seg_start = 1, seg_end = 2, seg_text = ''bb '', seg_confidence = 0\<rparr>,
      \<lparr>seg_start = 2, seg_end = 3, seg_text = ''cc'', seg_confidence = 0\<rparr>]) \<and>
   (\<forall>s \<in> set
     [\<lparr>seg_start = 0, seg_end = 1, seg_text = ''aa '', seg_confidence = 0\<rparr>,
      \<lparr>seg_start = 1, seg_end = 2, seg_text = ''bb '', seg_confidence = 0\<rparr>,
      \<lparr>seg_start = 2, seg_end = 3, seg_text = ''cc'', seg_confidence = 0\<rparr>].
      seg_start s \<le> seg_end s)"
  by simp

lemma example_located:
  "indexOf ''aa bb cc'' (trim ''aa'') = Some 0 \<and>
   indexOf ''aa bb cc'' (trim ''bb'') = Some 3 \<and>
   indexOf ''aa bb cc'' (trim ''cc'') = Some 6"
  by code_simp

lemma example_overlapping:
  "overlapping
     [\<lparr>seg_start = 0, seg_end = 1, seg_text = ''aa '', seg_confidence = 0\<rparr>,
      \<lparr>seg_start = 1, seg_end = 2, seg_text = ''bb '', seg_confidence = 0\<rparr>,
      \<lparr>seg_start = 2, seg_end = 3, seg_text = ''cc'', seg_confidence = 0\<rparr>] 0 3 5 \<noteq> [] \<and>
   overlapping
     [\<lparr>seg_start = 0, seg_end = 1, seg_text = ''aa '', seg_confidence = 0\<rparr>,
      \<lparr>seg_start = 1, seg_end = 2, seg_text = ''bb '', seg_confidence = 0\<rparr>,
      \<lparr>seg_start = 2, seg_end = 3, seg_text = ''cc'', seg_confidence = 0\<rparr>] 0 6 8 \<noteq> []"
  by (simp add: overlapping_def overlaps_def)

theorem chunkText_times_witness:
  "chunk_startTime (chunkText [''aa'', ''bb'', ''cc''] ''aa bb cc''
     [\<lparr>seg_start = 0, seg_end = 1, seg_text = ''aa '', seg_confidence = 0\<rparr>,
      \<lparr>seg_start = 1, seg_end = 2, seg_text = ''bb '', seg_confidence = 0\<rparr>,
      \<lparr>seg_start = 2, seg_end = 3, seg_text = ''cc'', seg_confidence = 0\<rparr>] ! 1)
   \<le> chunk_startTime (chunkText [''aa'', ''bb'', ''cc''] ''aa bb cc''
     [\<lparr>seg_start = 0, seg_end = 1, seg_text = ''aa '', seg_confidence = 0\<rparr>,
      \<lparr>seg_start = 1, seg_end = 2, seg_text = ''bb '', seg_confidence = 0\<rparr>,
      \<lparr>seg_start = 2, seg_end = 3, seg_text = ''cc'', seg_confidence = 0\<rparr>] ! 2) \<and>
   chunk_startTime (chunkText [''aa'', ''bb'', ''cc''] ''aa bb cc''
     [\<lparr>seg_start = 0, seg_end = 1, seg_text = ''aa '', seg_confidence = 0\<rparr>,
      \<lparr>seg_start = 1, seg_end = 2, seg_text = ''bb '', seg_confidence = 0\<rparr>,
      \<lparr>seg_start = 2, seg_end = 3, seg_text = ''cc'', seg_confidence = 0\<rparr>] ! 1)
   \<le> chunk_endTime (chunkText [''aa'', ''bb'', ''cc''] ''aa bb cc''
     [\<lparr>seg_start = 0, seg_end = 1, seg_text = ''aa '', seg_confidence = 0\<rparr>,
      \<lparr>seg_start = 1, seg_end = 2, seg_text = ''bb '', seg_confidence = 0\<rparr>,
      \<lparr>seg_start = 2, seg_end = 3, seg_text = ''cc'', seg_confidence = 0\<rparr>] ! 1)"
proof -
  note ex = example_segments_sorted
  note inst = chunkText_times [OF ex [THEN conjunct1] ex [THEN conjunct2],
      of "[''aa'', ''bb'', ''cc'']" "''aa bb cc''"]
  from inst [THEN conjunct2, rule_format, of 1 2 3 6] example_located example_overlapping
  have "chunk_startTime (chunkText [''aa'', ''bb'', ''cc''] ''aa bb cc''
     [\<lparr>seg_start = 0, seg_end = 1, seg_text = ''aa '', seg_confidence = 0\<rparr>,
      \<lparr>seg_start = 1, seg_end = 2, seg_text = ''bb '', seg_confidence = 0\<rparr>,
      \<lparr>seg_start = 2, seg_end = 3, seg_text = ''cc'', seg_confidence = 0\<rparr>] ! 1)
   \<le> chunk_startTime (chunkText [''aa'', ''bb'', ''cc''] ''aa bb cc''
     [\<lparr>seg_start = 0, seg_end = 1, seg_text = ''aa '', seg_confidence = 0\<rparr>,
      \<lparr>seg_start = 1, seg_end = 2, seg_text = ''bb '', seg_confidence = 0\<rparr>,
      \<lparr>seg_start = 2, seg_end = 3, seg_text = ''cc'', seg_confidence = 0\<rparr>] ! 2)"
    by simp
  moreover from inst [THEN conjunct1, rule_format, of 1]
  have "chunk_startTime (chunkText [''aa'', ''bb'', ''cc''] ''aa bb cc''
     [\<lparr>seg_start = 0, seg_end = 1, seg_text = ''aa '', seg_confidence = 0\<rparr>,
      \<lparr>seg_start = 1, seg_end = 2, seg_text = ''bb '', seg_confidence = 0\<rparr>,
      \<lparr>seg_start = 2, seg_end = 3, seg_text = ''cc'', seg_confidence = 0\<rparr>] ! 1)
   \<le> chunk_endTime (chunkText [''aa'', ''bb'', ''cc''] ''aa bb cc''
     [\<lparr>seg_start = 0, seg_end = 1, seg_text = ''aa '', seg_confidence = 0\<rparr>,
      \<lparr>seg_start = 1, seg_end = 2, seg_text = ''bb '', seg_confidence = 0\<rparr>,
      \<lparr>seg_start = 2, seg_end = 3, seg_text = ''cc'', seg_confidence = 0\<rparr>] ! 1)"
    by simp
  ultimately show ?thesis by (rule conjI)
qed

text \<open>
  C3 as stated fails. A passage that occurs twice is located at its first occurrence: with
  the pieces \<open>aa\<close>, \<open>bb\<close>, \<open>aa\<close> of the text \<open>aa bb aa\<close> and three segments starting at
  0, 1, 2, the third chunk starts at 0, before the second (which starts at 1). And a
  segment that ends before it starts gives a chunk that ends before it starts.
\<close>

theorem chunkText_order_counterexample:
  "sorted (map seg_start
     [\<lparr>seg_start = 0, seg_end = 1, seg_text = ''aa '', seg_confidence = 0\<rparr>,
      \<lparr>seg_start = 1, seg_end = 2, seg_text = ''bb '', seg_confidence = 0\<rparr>,
      \<lparr>seg_start = 2, seg_end = 3, seg_text = ''aa'', seg_confidence = 0\<rparr>]) \<and>
   \<not> chunk_startTime (chunkText [''aa'', ''bb'', ''aa''] ''aa bb aa''
     [\<lparr>seg_start = 0, seg_end = 1, seg_text = ''aa '', seg_confidence = 0\<rparr>,
      \<lparr>seg_start = 1, seg_end = 2, seg_text = ''bb '', seg_confidence = 0\<rparr>,
      \<lparr>seg_start = 2, seg_end = 3, seg_text = ''aa'', seg_confidence = 0\<rparr>] ! 1)
   \<le> chunk_startTime (chunkText [''aa'', ''bb'', ''aa''] ''aa bb aa''
     [\<lparr>seg_start = 0, seg_end = 1, seg_text = ''aa '', seg_confidence = 0\<rparr>,
      \<lparr>seg_start = 1, seg_end = 2, seg_text = ''bb '', seg_confidence = 0\<rparr>,
      \<lparr>seg_start = 2, seg_end = 3, seg_text = ''aa'', seg_confidence = 0\<rparr>] ! 2) \<and>
   sorted (map seg_start
     [\<lparr>seg_start = 5, seg_end = 3, seg_text = ''aa'', seg_confidence = 0\<rparr>]) \<and>
   \<not> chunk_startTime (chunkText [''aa''] ''aa''
     [\<lparr>seg_start = 5, seg_end = 3, seg_text = ''aa'', seg_confidence = 0\<rparr>] ! 0)
   \<le> chunk_endTime (chunkText [''aa''] ''aa''
     [\<lparr>seg_start = 5, seg_end = 3, seg_text = ''aa'', seg_confidence = 0\<rparr>] ! 0)"
  by code_simp

section \<open>Properties of the citation extraction\<close>








lemma within5_refl: "within5 t t"
  by (simp add: within5_def)

lemma uniqueTimestamps_subset: "set (uniqueTimestamps ts) \<subseteq> set ts"
proof
  fix c assume "c \<in> set (uniqueTimestamps ts)"
  then obtain i where "(i, c) \<in> set (enumerate 0 ts)"
    by (auto simp: uniqueTimestamps_def)
  then show "c \<in> set ts"
    by (auto simp: in_set_enumerate_eq)
qed

lemma uniqueTimestamps_Cons:
  "\<exists>rest. uniqueTimestamps (t # ts) = t # rest"
  by (simp add: uniqueTimestamps_def within5_refl enumerate_eq_zip upt_conv_Cons
      del: upt_Suc)









lemma fallback_citation_cases:
  "c \<in> set (fallback_citations context) \<Longrightarrow>
   \<exists>chunk \<in> set context. 0 \<le> ctx_startTime chunk \<and> cit_time c = ctx_startTime chunk \<and>
     cit_startTime c = ctx_startTime chunk"
  by (auto simp: fallback_citations_def chunk_citation_def Let_def split: if_splits)

lemma fallback_citations_nonempty:
  "\<exists>chunk \<in> set context. 0 \<le> ctx_startTime chunk \<Longrightarrow> fallback_citations context \<noteq> []"
  by (auto simp: fallback_citations_def chunk_citation_def Let_def)

lemma no_attribution_explicit_empty:
  assumes "\<forall>timeString \<in> set (scan_tokens response). \<forall>seconds.
             parseTimeString timeString = Some seconds \<longrightarrow> find_chunk seconds context = None"
  shows "explicit_citations response context = []"
proof -
  have "token_citation context timeString = []" if "timeString \<in> set (scan_tokens response)"
    for timeString
    using assms that by (auto simp: token_citation_def split: option.splits)
  then show ?thesis
    by (simp add: explicit_citations_def)
qed

text \<open>
  C9 (as amended). For every answer and every context list with at least one chunk whose
  start time is not negative, at least one citation is returned. When no time token of the
  answer falls inside a context chunk (in particular when the answer has no token at all),
  the citations are the deduplicated per-chunk citations, each at the start time of a
  context chunk with a non-negative start time.
\<close>

theorem extractTimestamps_fallback:
  assumes "\<exists>chunk \<in> set context. 0 \<le> ctx_startTime chunk"
  shows "extractTimestamps response context \<noteq> [] \<and>
    ((\<forall>timeString \<in> set (scan_tokens response). \<forall>seconds.
        parseTimeString timeString = Some seconds \<longrightarrow> find_chunk seconds context = None) \<longrightarrow>
     extractTimestamps response context = uniqueTimestamps (fallback_citations context) \<and>
     (\<forall>c \<in> set (extractTimestamps response context).
        \<exists>chunk \<in> set context. 0 \<le> ctx_startTime chunk \<and> cit_time c = ctx_startTime chunk \<and>
          cit_startTime c = ctx_startTime chunk))"
proof -
  from assms have ctx: "context \<noteq> []" by auto
  have ne: "uniqueTimestamps ts \<noteq> []" if "ts \<noteq> []" for ts
  proof -
    from that obtain t rest where "ts = t # rest" by (cases ts) auto
    with uniqueTimestamps_Cons [of t rest] show ?thesis by auto
  qed
  have fb: "fallback_citations context \<noteq> []"
    using assms by (rule fallback_citations_nonempty)
  have first: "extractTimestamps response context \<noteq> []"
  proof (cases "explicit_citations response context = []")
    case True
    with ctx fb show ?thesis by (simp add: extractTimestamps_def Let_def ne)
  next
    case False
    then show ?thesis by (simp add: extractTimestamps_def Let_def ne)
  qed
  have second: "extractTimestamps response context = uniqueTimestamps (fallback_citations context) \<and>
     (\<forall>c \<in> set (extractTimestamps response context).
        \<exists>chunk \<in> set context. 0 \<le> ctx_startTime chunk \<and> cit_time c = ctx_startTime chunk \<and>
          cit_startTime c = ctx_startTime chunk)"
    if h: "\<forall>timeString \<in> set (scan_tokens response). \<forall>seconds.
        parseTimeString timeString = Some seconds \<longrightarrow> find_chunk seconds context = None"
  proof -
    from h have "explicit_citations response context = []"
      by (rule no_attribution_explicit_empty)
    with ctx have eq: "extractTimestamps response context
        = uniqueTimestamps (fallback_citations context)"
      by (simp add: extractTimestamps_def Let_def)
    moreover have "\<forall>c \<in> set (uniqueTimestamps (fallback_citations context)).
        \<exists>chunk \<in> set context. 0 \<le> ctx_startTime chunk \<and> cit_time c = ctx_startTime chunk \<and>
          cit_startTime c = ctx_startTime chunk"
      using uniqueTimestamps_subset [of "fallback_citations context"]
        fallback_citation_cases [of _ "context"] by blast
    ultimately show ?thesis by simp
  qed
  from first second show ?thesis by blast
qed

lemma fallback_example_hyps:
  "(\<exists>chunk \<in> set [\<lparr>ctx_index = 1, ctx_text = ''ml'', ctx_startTime = 300, ctx_endTime = 360,
       ctx_confidence = 0, ctx_score = 1 / 2\<rparr>]. 0 \<le> ctx_startTime chunk) \<and>
   (\<forall>timeString \<in> set (scan_tokens ''explained at [09:30]''). \<forall>seconds.
      parseTimeString timeString = Some seconds \<longrightarrow>
      find_chunk seconds [\<lparr>ctx_index = 1, ctx_text = ''ml'', ctx_startTime = 300,
        ctx_endTime = 360, ctx_confidence = 0, ctx_score = 1 / 2\<rparr>] = None)"
proof -
  have "scan_tokens ''explained at [09:30]'' = [''09:30'']" by code_simp
  moreover have "parseTimeString ''09:30'' = Some 570" by code_simp
  moreover have "find_chunk 570 [\<lparr>ctx_index = 1, ctx_text = ''ml'', ctx_startTime = 300,
        ctx_endTime = 360, ctx_confidence = 0, ctx_score = 1 / 2\<rparr>] = None"
    by (simp add: find_chunk_def)
  ultimately show ?thesis by simp
qed

theorem extractTimestamps_fallback_witness:
  "(\<exists>chunk \<in> set [\<lparr>ctx_index = 1, ctx_text = ''ml'', ctx_startTime = 300, ctx_endTime = 360,
       ctx_confidence = 0, ctx_score = 1 / 2\<rparr>]. 0 \<le> ctx_startTime chunk) \<and>
   extractTimestamps ''explained at [09:30]''
     [\<lparr>ctx_index = 1, ctx_text = ''ml'', ctx_startTime = 300, ctx_endTime = 360,
       ctx_confidence = 0, ctx_score = 1 / 2\<rparr>] \<noteq> [] \<and>
   extractTimestamps ''explained at [09:30]''
     [\<lparr>ctx_index = 1, ctx_text = ''ml'', ctx_startTime = 300, ctx_endTime = 360,
       ctx_confidence = 0, ctx_score = 1 / 2\<rparr>]
   = uniqueTimestamps (fallback_citations
     [\<lparr>ctx_index = 1, ctx_text = ''ml'', ctx_startTime = 300, ctx_endTime = 360,
       ctx_confidence = 0, ctx_score = 1 / 2\<rparr>])"
proof -
  note h = fallback_example_hyps
  from extractTimestamps_fallback [OF h [THEN conjunct1], of "''explained at [09:30]''"]
    h [THEN conjunct2] h [THEN conjunct1]
  show ?thesis by blast
qed

text \<open>
  C9 as stated fails: a context list whose only chunk has a negative start time gives no
  citation at all, the per-chunk fallback leaving that chunk out.
\<close>

theorem extractTimestamps_fallback_counterexample:
  "[\<lparr>ctx_index = 1, ctx_text = ''ml'', ctx_startTime = - 1, ctx_endTime = 10,
       ctx_confidence = 0, ctx_score = 1 / 2\<rparr>] \<noteq> [] \<and>
   extractTimestamps ''The lecture covers it.''
     [\<lparr>ctx_index = 1, ctx_text = ''ml'', ctx_startTime = - 1, ctx_endTime = 10,
       ctx_confidence = 0, ctx_score = 1 / 2\<rparr>] = []"
  by code_simp

section \<open>Properties of the embedder\<close>



lemma truncate_with_embedding [simp]: "chunk.truncate (with_embedding c v) = c"
  by (simp add: with_embedding_def chunk.truncate_def chunk.extend_def)

lemma truncate_without_embedding [simp]: "chunk.truncate (without_embedding c msg) = c"
  by (simp add: without_embedding_def chunk.truncate_def chunk.extend_def)

lemma embedding_with [simp]:
  "embedding (with_embedding c v) = Some v" "embeddingError (with_embedding c v) = None"
  by (simp_all add: with_embedding_def chunk.extend_def)

lemma embedding_without [simp]:
  "embedding (without_embedding c msg) = None"
  "embeddingError (without_embedding c msg) = Some msg"
  by (simp_all add: without_embedding_def chunk.extend_def)






lemma createBatches_Some:
  "0 < n \<Longrightarrow> \<exists>batches. createBatches xs n = Some batches \<and> concat batches = xs"
proof (induction xs n rule: createBatches.induct)
  case (1 xs n)
  show ?case
  proof (cases "xs = []")
    case True
    then show ?thesis by (subst createBatches.simps) simp
  next
    case False
    with 1 obtain batches where "createBatches (drop n xs) n = Some batches"
      "concat batches = drop n xs"
      by auto
    with False "1.prems" show ?thesis
      by (subst createBatches.simps) simp
  qed
qed







section \<open>Properties of the vector index\<close>

lemma upsert_into_subset: "set (upsert_into index vectors) \<subseteq> set index \<union> set vectors"
  by (auto simp: upsert_into_def)

lemma upsertVectors_index:
  "upsertVectors e vectors rc w = (r, w') \<Longrightarrow>
   set (pinecone_index w') \<subseteq> set (pinecone_index w) \<union> set vectors \<and>
   uuid_count w' = uuid_count w"
proof (induction e vectors rc w arbitrary: r w' rule: upsertVectors.induct)
  case (1 e vectors retryCount w)
  show ?case
  proof (cases "index_upsert e (upsert_calls w) vectors")
    case None
    with "1.prems" have "w' = w\<lparr>upsert_calls := upsert_calls w + 1,
                   pinecone_index := upsert_into (pinecone_index w) vectors,
                   index_log := index_log w @ [Upsert (map vr_id vectors)]\<rparr>"
      by (subst (asm) upsertVectors.simps) simp
    then show ?thesis
      using upsert_into_subset [of "pinecone_index w" vectors] by simp
  next
    case (Some err)
    show ?thesis
    proof (cases "retryCount < maxRetries")
      case False
      with Some "1.prems" have "w' = w\<lparr>upsert_calls := upsert_calls w + 1\<rparr>"
        by (subst (asm) upsertVectors.simps) simp
      then show ?thesis by simp
    next
      case True
      let ?w1 = "delay (retryDelay * 2 ^ retryCount) (w\<lparr>upsert_calls := upsert_calls w + 1\<rparr>)"
      from Some True "1.prems" have "upsertVectors e vectors (retryCount + 1) ?w1 = (r, w')"
        by (subst (asm) upsertVectors.simps) simp
      from "1.IH" [OF Some True this] show ?thesis
        by (simp add: delay_def)
    qed
  qed
qed

lemma store_batches_index:
  "store_batches e batches i results w = (results', w') \<Longrightarrow>
   set (pinecone_index w') \<subseteq> set (pinecone_index w) \<union> set (concat batches) \<and>
   uuid_count w' = uuid_count w"
proof (induction batches arbitrary: i results w)
  case Nil
  then show ?case by simp
next
  case (Cons batch batches)
  obtain r w1 where up: "upsertVectors e batch 0 w = (r, w1)"
    by (cases "upsertVectors e batch 0 w")
  note first = upsertVectors_index [OF up]
  show ?case
  proof (cases r)
    case None
    let ?w = "if batches \<noteq> [] then delay 500 w1 else w1"
    from Cons.prems up None
    have "store_batches e batches (i + 1)
            (results\<lparr>successfulBatches := successfulBatches results + 1\<rparr>) ?w = (results', w')"
      by simp
    from Cons.IH [OF this] have "set (pinecone_index w') \<subseteq> set (pinecone_index ?w) \<union> set (concat batches)"
      and "uuid_count w' = uuid_count ?w"
      by simp_all
    moreover have "pinecone_index ?w = pinecone_index w1" "uuid_count ?w = uuid_count w1"
      by (simp_all add: delay_def)
    ultimately show ?thesis using first by auto
  next
    case (Some err)
    from Cons.prems up Some
    have "store_batches e batches (i + 1)
            (results\<lparr>failedBatches := failedBatches results + 1,
                      errors := errors results @ [(i + 1, err)]\<rparr>) w1 = (results', w')"
      by simp
    from Cons.IH [OF this] first show ?thesis by auto
  qed
qed

lemma initializeIndex_keeps:
  "initializeIndex e w = (r, w1) \<Longrightarrow>
   pinecone_index w1 = pinecone_index w \<and> uuid_count w1 = uuid_count w"
  by (auto simp: initializeIndex_def split: option.splits)

lemma storeChunks_returns:
  "\<exists>r w'. storeChunks e videoId chunks metadata w = Some (r, w')"
proof -
  obtain r0 w1 where i: "(if index_ready w then (None, w) else initializeIndex e w) = (r0, w1)"
    by (cases "if index_ready w then (None, w) else initializeIndex e w")
  let ?valid = "filter has_valid_embedding chunks"
  let ?vectors = "map (\<lambda>(k, c). chunk_vector e videoId metadata (uuid_count w1 + k) c)
                    (enumerate 0 ?valid)"
  let ?w2 = "w1\<lparr>uuid_count := uuid_count w1 + length ?valid\<rparr>"
  obtain batches where b: "createBatches ?vectors batchSize = Some batches"
    using createBatches_Some [of batchSize ?vectors] by (auto simp: batchSize_def)
  obtain res w3 where s: "store_batches e batches 0
       \<lparr>totalVectors = length ?vectors, successfulBatches = 0, failedBatches = 0, errors = []\<rparr>
       ?w2 = (res, w3)"
    by (cases "store_batches e batches 0
       \<lparr>totalVectors = length ?vectors, successfulBatches = 0, failedBatches = 0, errors = []\<rparr>
       ?w2")
  show ?thesis
  proof (cases r0)
    case (Some err)
    with i show ?thesis by (simp add: storeChunks_def)
  next
    case None
    show ?thesis
    proof (cases "?valid = []")
      case True
      with i None show ?thesis by (simp add: storeChunks_def)
    next
      case False
      with i None b s show ?thesis by (simp add: storeChunks_def Let_def)
    qed
  qed
qed

lemma storeChunks_index:
  assumes "storeChunks e videoId chunks metadata w = Some (r, w')"
  shows "\<forall>v \<in> set (pinecone_index w').
           v \<in> set (pinecone_index w) \<or>
           (\<exists>c \<in> set chunks. \<exists>n. uuid_count w \<le> n \<and> n < uuid_count w' \<and>
              has_valid_embedding c \<and>
              vr_id v = videoId @ ''_chunk_'' @ toString (chunk_index c) @ ''_'' @ uuidv4 e n \<and>
              vr_chunkIndex v = chunk_index c \<and> vr_videoId v = videoId)"
proof -
  obtain r0 w1 where i: "(if index_ready w then (None, w) else initializeIndex e w) = (r0, w1)"
    by (cases "if index_ready w then (None, w) else initializeIndex e w")
  then have keep: "pinecone_index w1 = pinecone_index w \<and> uuid_count w1 = uuid_count w"
    using initializeIndex_keeps [of e w r0 w1] by (auto split: if_splits)
  let ?valid = "filter has_valid_embedding chunks"
  let ?vectors = "map (\<lambda>(k, c). chunk_vector e videoId metadata (uuid_count w1 + k) c)
                    (enumerate 0 ?valid)"
  let ?w2 = "w1\<lparr>uuid_count := uuid_count w1 + length ?valid\<rparr>"
  show ?thesis
  proof (cases r0)
    case (Some err)
    with i assms keep show ?thesis by (auto simp: storeChunks_def)
  next
    case None
    show ?thesis
    proof (cases "?valid = []")
      case True
      with i None assms keep show ?thesis by (auto simp: storeChunks_def)
    next
      case False
      with i None assms obtain batches res where b: "createBatches ?vectors batchSize = Some batches"
        and s: "store_batches e batches 0
           \<lparr>totalVectors = length ?vectors, successfulBatches = 0, failedBatches = 0,
            errors = []\<rparr> ?w2 = (res, w')"
        by (auto simp: storeChunks_def Let_def split: option.splits prod.splits)
      have cat: "concat batches = ?vectors"
        using createBatches_Some [of batchSize ?vectors] b by (auto simp: batchSize_def)
      from store_batches_index [OF s] cat
      have sub: "set (pinecone_index w') \<subseteq> set (pinecone_index w) \<union> set ?vectors"
        and cnt: "uuid_count w' = uuid_count w + length ?valid"
        using keep by simp_all
      show ?thesis
      proof
        fix v assume "v \<in> set (pinecone_index w')"
        with sub have "v \<in> set (pinecone_index w) \<or> v \<in> set ?vectors" by auto
        then show "v \<in> set (pinecone_index w) \<or>
           (\<exists>c \<in> set chunks. \<exists>n. uuid_count w \<le> n \<and> n < uuid_count w' \<and>
              has_valid_embedding c \<and>
              vr_id v = videoId @ ''_chunk_'' @ toString (chunk_index c) @ ''_'' @ uuidv4 e n \<and>
              vr_chunkIndex v = chunk_index c \<and> vr_videoId v = videoId)"
        proof
          assume "v \<in> set (pinecone_index w)"
          then show ?thesis by simp
        next
          assume "v \<in> set ?vectors"
          then obtain k c where kc: "(k, c) \<in> set (enumerate 0 ?valid)"
            and v: "v = chunk_vector e videoId metadata (uuid_count w1 + k) c"
            by auto
          from kc have k: "k < length ?valid" and ck: "c = ?valid ! k"
            by (auto simp: in_set_enumerate_eq)
          from k ck have c: "c \<in> set ?valid"
            using nth_mem by blast
          from c have "c \<in> set chunks" "has_valid_embedding c" by simp_all
          moreover from k keep cnt have "uuid_count w \<le> uuid_count w1 + k"
            "uuid_count w1 + k < uuid_count w'"
            by simp_all
          moreover from v have "vr_id v = videoId @ ''_chunk_'' @ toString (chunk_index c) @ ''_''
               @ uuidv4 e (uuid_count w1 + k)"
            "vr_chunkIndex v = chunk_index c" "vr_videoId v = videoId"
            by (simp_all add: chunk_vector_def)
          ultimately show ?thesis by blast
        qed
      qed
    qed
  qed
qed

text \<open>
  C8. \<open>storeChunks\<close> returns, and every record in the index afterwards was either there
  before or has the identifier \<open>{videoId}_chunk_{index}_{suffix}\<close> of a chunk with a valid
  embedding, with that chunk's index and a suffix that \<open>uuidv4()\<close> generated during this
  call.
\<close>

theorem storeChunks_identifiers:
  "(\<exists>r w'. storeChunks e videoId chunks metadata w = Some (r, w')) \<and>
   (\<forall>r w'. storeChunks e videoId chunks metadata w = Some (r, w') \<longrightarrow>
      (\<forall>v \<in> set (pinecone_index w').
         v \<in> set (pinecone_index w) \<or>
         (\<exists>c \<in> set chunks. \<exists>n. uuid_count w \<le> n \<and> n < uuid_count w' \<and>
            has_valid_embedding c \<and>
            vr_id v = videoId @ ''_chunk_'' @ toString (chunk_index c) @ ''_'' @ uuidv4 e n \<and>
            vr_chunkIndex v = chunk_index c \<and> vr_videoId v = videoId)))"
  using storeChunks_returns [of e videoId chunks metadata w]
    storeChunks_index [of e videoId chunks metadata w]
  by (intro conjI allI impI)

lemma storeChunks_example:
  "map_option (\<lambda>(r, w'). map vr_id (pinecone_index w'))
     (storeChunks calm_env ''v1'' [with_embedding example_chunk [1, 0]] example_metadata
        empty_world)
   = Some [''v1_chunk_0_uuid-0'']"
  by code_simp

theorem storeChunks_identifiers_witness:
  "map_option (\<lambda>(r, w'). map vr_id (pinecone_index w'))
     (storeChunks calm_env ''v1'' [with_embedding example_chunk [1, 0]] example_metadata
        empty_world)
   = Some [''v1_chunk_0_uuid-0''] \<and>
   (\<exists>r w'. storeChunks calm_env ''v1'' [with_embedding example_chunk [1, 0]] example_metadata
              empty_world = Some (r, w') \<and>
      (\<forall>v \<in> set (pinecone_index w').
         v \<in> set (pinecone_index empty_world) \<or>
         (\<exists>c \<in> set [with_embedding example_chunk [1, 0]].
            \<exists>n. uuid_count empty_world \<le> n \<and> n < uuid_count w' \<and>
              has_valid_embedding c \<and>
              vr_id v = ''v1'' @ ''_chunk_'' @ toString (chunk_index c) @ ''_'' @ uuidv4 calm_env n \<and>
              vr_chunkIndex v = chunk_index c \<and> vr_videoId v = ''v1'')))"
proof -
  note inst = storeChunks_identifiers [of calm_env "''v1''" "[with_embedding example_chunk [1, 0]]"
      example_metadata empty_world]
  from inst [THEN conjunct1] obtain r w' where
    run: "storeChunks calm_env ''v1'' [with_embedding example_chunk [1, 0]] example_metadata
              empty_world = Some (r, w')"
    by blast
  from inst [THEN conjunct2, rule_format, OF run] run storeChunks_example
  show ?thesis by blast
qed

section \<open>Properties of the retrieval\<close>

lemma make_context_empty: "make_context rs = [] \<longleftrightarrow> rs = []"
  by (cases rs) (simp_all add: make_context_def)

lemma answer_from_calls:
  "fst (answer_from e calls message rs) = calls @ [GenerateAnswer message (make_context rs)]"
  by (simp add: answer_from_def Let_def split: sum.splits)

lemma answer_from_found:
  "rs \<noteq> [] \<Longrightarrow> snd (answer_from e calls message rs) \<noteq> Inr not_found_response"
  by (auto simp: answer_from_def Let_def not_found_response_def make_context_empty
      split: sum.splits)

lemma generateRAGResponse_trace:
  assumes "generateQueryEmbedding e (embed_calls w) message = Inr v"
    and "searchSimilar e w v videoId 5 (3 / 10) = Inr primary"
  shows "take 2 (fst (generateRAGResponse e w message videoId))
           = [EmbedQuery message, SearchSimilar videoId 5 (3 / 10)] \<and>
         count_list (fst (generateRAGResponse e w message videoId)) (SearchSimilar videoId 5 (3 / 10))
           = 1 \<and>
         count_list (fst (generateRAGResponse e w message videoId)) (SearchSimilar videoId 3 (1 / 10))
           = (if primary = [] then 1 else 0) \<and>
         (\<forall>fallback. searchSimilar e (w\<lparr>index_ready := True\<rparr>) v videoId 3 (1 / 10) = Inr fallback \<longrightarrow>
            (snd (generateRAGResponse e w message videoId) = Inr not_found_response
               \<longleftrightarrow> primary = [] \<and> fallback = []) \<and>
            ((\<exists>context. GenerateAnswer message context
                         \<in> set (fst (generateRAGResponse e w message videoId)))
               \<longleftrightarrow> \<not> (primary = [] \<and> fallback = [])) \<and>
            (primary = [] \<and> fallback = [] \<longrightarrow>
               generateRAGResponse e w message videoId =
                 ([EmbedQuery message, SearchSimilar videoId 5 (3 / 10),
                   SearchSimilar videoId 3 (1 / 10)], Inr not_found_response)))"
proof (cases "primary = []")
  case False
  then have R: "generateRAGResponse e w message videoId =
      answer_from e [EmbedQuery message, SearchSimilar videoId 5 (3 / 10)] message primary"
    using assms by (simp add: generateRAGResponse_def)
  show ?thesis
    unfolding R using False answer_from_found [OF False, of e]
    by (auto simp: answer_from_calls)
next
  case True
  show ?thesis
  proof (cases "searchSimilar e (w\<lparr>index_ready := True\<rparr>) v videoId 3 (1 / 10)")
    case (Inl err)
    with True assms have "generateRAGResponse e w message videoId =
        ([EmbedQuery message, SearchSimilar videoId 5 (3 / 10), SearchSimilar videoId 3 (1 / 10)],
         Inl (''RAG response generation failed: '' @ err))"
      by (simp add: generateRAGResponse_def)
    with True Inl show ?thesis by simp
  next
    case (Inr fallback)
    show ?thesis
    proof (cases "fallback = []")
      case empty: True
      with True Inr assms have "generateRAGResponse e w message videoId =
          ([EmbedQuery message, SearchSimilar videoId 5 (3 / 10), SearchSimilar videoId 3 (1 / 10)],
           Inr not_found_response)"
        by (simp add: generateRAGResponse_def)
      with True Inr empty show ?thesis by simp
    next
      case found: False
      with True Inr assms have R: "generateRAGResponse e w message videoId =
          answer_from e [EmbedQuery message, SearchSimilar videoId 5 (3 / 10),
                         SearchSimilar videoId 3 (1 / 10)] message fallback"
        by (simp add: generateRAGResponse_def)
      show ?thesis
        unfolding R using True Inr found answer_from_found [OF found, of e]
        by (auto simp: answer_from_calls)
    qed
  qed
qed

text \<open>
  C5. After the question is embedded, the first query to the index is the one with
  \<open>topK = 5\<close> and \<open>minScore = 0.3\<close> for the recording (the index is asked with the
  recording as filter, and the matches scoring below 0.3 are dropped). The query with \<open>topK = 3\<close> and
  \<open>minScore = 0.1\<close> is made, once, exactly when the first returns no match. When it
  returns, the fixed answer with no citations and no sources is the result exactly when
  both queries return no match, and the generator is called exactly when they do not.
\<close>

theorem generateRAGResponse_search:
  assumes "generateQueryEmbedding e (embed_calls w) message = Inr v"
    and "searchSimilar e w v videoId 5 (3 / 10) = Inr primary"
  shows "(videoId \<noteq> [] \<longrightarrow>
            (\<exists>matches. index_query e v 5 (Some videoId) = Inr matches \<and>
               primary = filter (\<lambda>m. 3 / 10 \<le> match_score m) matches)) \<and>
         take 2 (fst (generateRAGResponse e w message videoId))
           = [EmbedQuery message, SearchSimilar videoId 5 (3 / 10)] \<and>
         count_list (fst (generateRAGResponse e w message videoId)) (SearchSimilar videoId 5 (3 / 10))
           = 1 \<and>
         count_list (fst (generateRAGResponse e w message videoId)) (SearchSimilar videoId 3 (1 / 10))
           = (if primary = [] then 1 else 0) \<and>
         (\<forall>fallback. searchSimilar e (w\<lparr>index_ready := True\<rparr>) v videoId 3 (1 / 10) = Inr fallback \<longrightarrow>
            (snd (generateRAGResponse e w message videoId) = Inr not_found_response
               \<longleftrightarrow> primary = [] \<and> fallback = []) \<and>
            ((\<exists>context. GenerateAnswer message context
                         \<in> set (fst (generateRAGResponse e w message videoId)))
               \<longleftrightarrow> \<not> (primary = [] \<and> fallback = [])) \<and>
            (primary = [] \<and> fallback = [] \<longrightarrow>
               generateRAGResponse e w message videoId =
                 ([EmbedQuery message, SearchSimilar videoId 5 (3 / 10),
                   SearchSimilar videoId 3 (1 / 10)], Inr not_found_response)))"
proof -
  have "videoId \<noteq> [] \<longrightarrow>
          (\<exists>matches. index_query e v 5 (Some videoId) = Inr matches \<and>
             primary = filter (\<lambda>m. 3 / 10 \<le> match_score m) matches)"
    using assms(2)
    by (auto simp: searchSimilar_def split: prod.splits option.splits sum.splits if_splits)
  then show ?thesis
    using generateRAGResponse_trace [OF assms] by (rule conjI)
qed

lemma retrieval_example:
  "generateQueryEmbedding calm_env (embed_calls empty_world) ''what is ml?'' = Inr [1, 0] \<and>
   searchSimilar calm_env empty_world [1, 0] ''v1'' 5 (3 / 10) = Inr [] \<and>
   searchSimilar calm_env (empty_world\<lparr>index_ready := True\<rparr>) [1, 0] ''v1'' 3 (1 / 10) = Inr []"
  by code_simp

theorem generateRAGResponse_search_witness:
  "generateQueryEmbedding calm_env (embed_calls empty_world) ''what is ml?'' = Inr [1, 0] \<and>
   searchSimilar calm_env empty_world [1, 0] ''v1'' 5 (3 / 10) = Inr [] \<and>
   generateRAGResponse calm_env empty_world ''what is ml?'' ''v1'' =
     ([EmbedQuery ''what is ml?'', SearchSimilar ''v1'' 5 (3 / 10),
       SearchSimilar ''v1'' 3 (1 / 10)], Inr not_found_response)"
proof -
  note ex = retrieval_example
  note inst = generateRAGResponse_search [OF ex [THEN conjunct1] ex [THEN conjunct2, THEN conjunct1]]
  from inst [THEN conjunct2, THEN conjunct2, THEN conjunct2, THEN conjunct2, rule_format,
      OF ex [THEN conjunct2, THEN conjunct2]]
  have "generateRAGResponse calm_env empty_world ''what is ml?'' ''v1'' =
     ([EmbedQuery ''what is ml?'', SearchSimilar ''v1'' 5 (3 / 10),
       SearchSimilar ''v1'' 3 (1 / 10)], Inr not_found_response)"
    by simp
  with ex show ?thesis by simp
qed

section \<open>Properties of the orchestrator\<close>

lemma store_kept_refl [simp]: "store_kept w w"
  by (simp add: store_kept_def)


lemma store_kept_delay [simp]: "store_kept w (delay ms w)"
  by (simp add: store_kept_def delay_def)















lemma nothing_removed_refl [simp]: "nothing_removed videoId w w"
  by (simp add: nothing_removed_def)




















section \<open>Properties of the reprocess route\<close>

lemma deleteVideoVectors_effect:
  "index_ready w \<or> index_init e = None \<Longrightarrow>
   index_log (snd (deleteVideoVectors e videoId w)) = index_log w @ [DeleteMany videoId] \<and>
   (index_delete e videoId = None \<longrightarrow>
      pinecone_index (snd (deleteVideoVectors e videoId w))
        = filter (\<lambda>r. vr_videoId r \<noteq> videoId) (pinecone_index w))"
  by (auto simp: deleteVideoVectors_def initializeIndex_def Let_def split: option.splits)

lemma deleteVideoVectors_tables:
  "videos (snd (deleteVideoVectors e videoId w)) = videos w \<and>
   transcripts (snd (deleteVideoVectors e videoId w)) = transcripts w \<and>
   text_chunks (snd (deleteVideoVectors e videoId w)) = text_chunks w \<and>
   chat_conversations (snd (deleteVideoVectors e videoId w)) = chat_conversations w"
  by (auto simp: deleteVideoVectors_def initializeIndex_def Let_def split: option.splits)

text \<open>
  C2 (as amended). A reprocess request for a recording whose status is \<open>processing\<close> is
  rejected and changes nothing. For any other status it deletes the chunks, the transcript
  and the conversations of the recording, and resets the recording to status
  \<open>processing\<close>, stage \<open>uploading\<close>, progress 5 and no error; with the index reachable the
  deletion of the recording's vectors is requested, and when the index carries it out no
  vector of the recording is left.
\<close>

theorem reprocess_effect:
  assumes "videos w videoId = Some row"
  shows "(v_status row = ''processing'' \<longrightarrow>
            reprocess e videoId w = (Http 400 ''Video is already being processed'', w)) \<and>
         (v_status row \<noteq> ''processing'' \<longrightarrow>
            videos (snd (reprocess e videoId w)) =
              (videos w)(videoId \<mapsto> \<lparr>v_status = ''processing'', v_stage = ''uploading'',
                                       v_progress = 5, v_error = None\<rparr>) \<and>
            text_chunks (snd (reprocess e videoId w)) =
              filter (\<lambda>r. cr_video_id r \<noteq> videoId) (text_chunks w) \<and>
            transcripts (snd (reprocess e videoId w)) =
              filter (\<lambda>r. tr_video_id r \<noteq> videoId) (transcripts w) \<and>
            chat_conversations (snd (reprocess e videoId w)) =
              filter (\<lambda>r. cv_video_id r \<noteq> videoId) (chat_conversations w) \<and>
            (index_ready w \<or> index_init e = None \<longrightarrow>
               index_log (snd (reprocess e videoId w)) = index_log w @ [DeleteMany videoId]) \<and>
            (((index_ready w \<or> index_init e = None) \<and> index_delete e videoId = None) \<longrightarrow>
               pinecone_index (snd (reprocess e videoId w)) =
                 filter (\<lambda>r. vr_videoId r \<noteq> videoId) (pinecone_index w)))"
proof (cases "v_status row = ''processing''")
  case True
  with assms show ?thesis by (simp add: reprocess_def)
next
  case False
  let ?w1 = "snd (deleteVideoVectors e videoId w)"
  note t = deleteVideoVectors_tables [of e videoId w]
  note d = deleteVideoVectors_effect [of w e videoId]
  have row: "row\<lparr>v_status := ''processing'', v_stage := ''uploading'', v_progress := 5,
                 v_error := None\<rparr>
             = \<lparr>v_status = ''processing'', v_stage = ''uploading'', v_progress = 5,
                v_error = None\<rparr>"
    by simp
  from assms False have w': "snd (reprocess e videoId w) =
      ?w1\<lparr>chat_conversations := filter (\<lambda>r. cv_video_id r \<noteq> videoId) (chat_conversations ?w1),
          text_chunks := filter (\<lambda>r. cr_video_id r \<noteq> videoId) (text_chunks ?w1),
          transcripts := filter (\<lambda>r. tr_video_id r \<noteq> videoId) (transcripts ?w1),
          videos := (videos ?w1)(videoId \<mapsto> \<lparr>v_status = ''processing'', v_stage = ''uploading'',
                                       v_progress = 5, v_error = None\<rparr>)\<rparr>"
    by (simp add: reprocess_def Let_def row)
  from False t d show ?thesis
    unfolding w' by simp
qed

lemma reprocess_example:
  "videos failed_world ''v1'' = Some \<lparr>v_status = ''failed'', v_stage = ''failed'',
                                      v_progress = 0, v_error = Some ''boom''\<rparr> \<and>
   index_ready failed_world \<and> index_delete calm_env ''v1'' = None \<and>
   map vr_videoId (pinecone_index failed_world) = [''v1''] \<and>
   map cr_video_id (text_chunks failed_world) = [''v1''] \<and>
   map tr_video_id (transcripts failed_world) = [''v1'']"
  by (simp add: failed_world_def empty_world_def calm_env_def chunk_vector_def)

theorem reprocess_effect_witness:
  "videos failed_world ''v1'' = Some \<lparr>v_status = ''failed'', v_stage = ''failed'',
                                      v_progress = 0, v_error = Some ''boom''\<rparr> \<and>
   videos (snd (reprocess calm_env ''v1'' failed_world)) ''v1'' =
     Some \<lparr>v_status = ''processing'', v_stage = ''uploading'', v_progress = 5, v_error = None\<rparr> \<and>
   text_chunks (snd (reprocess calm_env ''v1'' failed_world)) = [] \<and>
   transcripts (snd (reprocess calm_env ''v1'' failed_world)) = [] \<and>
   pinecone_index (snd (reprocess calm_env ''v1'' failed_world)) = []"
proof -
  note ex = reprocess_example
  have ns: "v_status \<lparr>v_status = ''failed'', v_stage = ''failed'', v_progress = 0,
      v_error = Some ''boom''\<rparr> \<noteq> ''processing''"
    by simp
  note inst = reprocess_effect [OF ex [THEN conjunct1], of calm_env, THEN conjunct2, rule_format, OF ns]
  have chunks: "filter (\<lambda>r. cr_video_id r \<noteq> ''v1'') (text_chunks failed_world) = []"
    and trans: "filter (\<lambda>r. tr_video_id r \<noteq> ''v1'') (transcripts failed_world) = []"
    and vecs: "filter (\<lambda>r. vr_videoId r \<noteq> ''v1'') (pinecone_index failed_world) = []"
    by (simp_all add: failed_world_def empty_world_def chunk_vector_def)
  from ex have ready: "(index_ready failed_world \<or> index_init calm_env = None) \<and>
      index_delete calm_env ''v1'' = None"
    by simp
  from inst [THEN conjunct1] have "videos (snd (reprocess calm_env ''v1'' failed_world)) ''v1'' =
     Some \<lparr>v_status = ''processing'', v_stage = ''uploading'', v_progress = 5, v_error = None\<rparr>"
    by simp
  moreover from inst [THEN conjunct2, THEN conjunct1] chunks
  have "text_chunks (snd (reprocess calm_env ''v1'' failed_world)) = []" by simp
  moreover from inst [THEN conjunct2, THEN conjunct2, THEN conjunct1] trans
  have "transcripts (snd (reprocess calm_env ''v1'' failed_world)) = []" by simp
  moreover from inst [THEN conjunct2, THEN conjunct2, THEN conjunct2, THEN conjunct2,
      THEN conjunct2, rule_format, OF ready] vecs
  have "pinecone_index (snd (reprocess calm_env ''v1'' failed_world)) = []" by simp
  ultimately show ?thesis using ex by simp
qed

text \<open>
  C2 as stated fails: after reprocessing a failed recording the progress is 5, not 0; and
  when the index refuses the deletion, the failure is only logged and the vector of the
  recording is still in the index.
\<close>

theorem reprocess_effect_counterexample:
  "map_option v_status (videos failed_world ''v1'') = Some ''failed'' \<and>
   map_option v_progress (videos (snd (reprocess index_refusing_env ''v1'' failed_world)) ''v1'')
     = Some 5 \<and>
   map_option v_progress (videos (snd (reprocess index_refusing_env ''v1'' failed_world)) ''v1'')
     \<noteq> Some 0 \<and>
   map vr_videoId (pinecone_index (snd (reprocess index_refusing_env ''v1'' failed_world)))
     = [''v1'']"
  by (simp add: reprocess_def deleteVideoVectors_def failed_world_def empty_world_def
      index_refusing_env_def calm_env_def chunk_vector_def Let_def)

end
